theory Spec2Isabelle
  imports Complex_Main "HOL-Library.Word"
begin

section \<open>Binary floating point as the C code uses it\<close>

text \<open>
  \<^verbatim>\<open>benc.h\<close> computes its statistics in C \<^verbatim>\<open>float\<close> (IEEE 754 binary32), and
  calls \<^verbatim>\<open>sqrt\<close> in \<^verbatim>\<open>double\<close> (binary64). A value of either type is a finite real, an
  infinity or a NaN. Every arithmetic operation computes the exact real result and rounds it
  to the nearest representable number, ties to the even significand (the default rounding
  mode, each operation rounded to its own type: \<^verbatim>\<open>FLT_EVAL_METHOD\<close> 0, no contraction).
  The sign of a zero is not represented: every divisor in the program is a converted
  unsigned integer, the constant 1000 or a running mean, none of which is a negative zero.
\<close>

datatype cfloat = Fin real | PInf | NInf | NaN

text \<open>Rounding a real to the nearest integer, ties to even.\<close>

definition rne :: "real \<Rightarrow> int" where
  "rne x = (let f = \<lfloor>x\<rfloor>; d = x - of_int f
            in if d < 1/2 then f else if 1/2 < d then f + 1 else if even f then f else f + 1)"

text \<open>The binary exponent of a positive real: \<open>2 powi ilog2 x \<le> x < 2 powi (ilog2 x + 1)\<close>.\<close>

function ilog2 :: "real \<Rightarrow> int" where
  "ilog2 x = (if x \<le> 0 then 0
              else if x < 1 then ilog2 (2 * x) - 1
              else if 2 \<le> x then ilog2 (x / 2) + 1
              else 0)"
  by pat_completeness auto
termination
proof (relation "measure (\<lambda>x. nat \<bar>\<lfloor>log 2 x\<rfloor>\<bar>)")
  show "wf (measure (\<lambda>x. nat \<bar>\<lfloor>log 2 x\<rfloor>\<bar>))" by simp
next
  fix x :: real
  assume a: "\<not> x \<le> 0" "x < 1"
  have "log 2 (2 * x) = log 2 x + 1" using a by (simp add: log_mult)
  then have f1: "\<lfloor>log 2 (2 * x)\<rfloor> = \<lfloor>log 2 x\<rfloor> + 1" by simp
  have f2: "\<lfloor>log 2 x\<rfloor> < 0" using a by (simp add: floor_less_iff)
  show "(2 * x, x) \<in> measure (\<lambda>x. nat \<bar>\<lfloor>log 2 x\<rfloor>\<bar>)"
    unfolding in_measure f1 using f2 by linarith
next
  fix x :: real
  assume a: "\<not> x \<le> 0" "\<not> x < 1" "2 \<le> x"
  have "log 2 (x / 2) = log 2 x - 1" using a by (simp add: log_divide)
  then have f1: "\<lfloor>log 2 (x / 2)\<rfloor> = \<lfloor>log 2 x\<rfloor> - 1" by simp
  have f2: "1 \<le> \<lfloor>log 2 x\<rfloor>" using a by (simp add: le_floor_iff le_log_iff)
  show "(x / 2, x) \<in> measure (\<lambda>x. nat \<bar>\<lfloor>log 2 x\<rfloor>\<bar>)"
    unfolding in_measure f1 using f2 by linarith
qed

declare ilog2.simps [simp del]

text \<open>
  Rounding to a format with \<open>p\<close> significand bits whose unit in the last place is
  \<open>2 powi e\<close> for \<open>emin \<le> e \<le> emax\<close>. \<open>fp_expt\<close> is the exponent of the unit of the
  binade of \<open>x\<close> (the smallest unit for a subnormal \<open>x\<close>), \<open>fp_near\<close> the multiple of that
  unit nearest to \<open>x\<close>, and \<open>fp_round\<close> overflows to an infinity when the magnitude of that
  multiple reaches \<open>2 powi (emax + p)\<close>.
\<close>

definition fp_expt :: "nat \<Rightarrow> int \<Rightarrow> real \<Rightarrow> int" where
  "fp_expt p emin x = max emin (ilog2 \<bar>x\<bar> - (int p - 1))"

definition fp_near :: "nat \<Rightarrow> int \<Rightarrow> real \<Rightarrow> real" where
  "fp_near p emin x = of_int (rne (x / 2 powi fp_expt p emin x)) * 2 powi fp_expt p emin x"

definition fp_round :: "nat \<Rightarrow> int \<Rightarrow> int \<Rightarrow> real \<Rightarrow> cfloat" where
  "fp_round p emin emax x =
     (if \<bar>fp_near p emin x\<bar> < 2 powi (emax + int p) then Fin (fp_near p emin x)
      else if 0 < x then PInf else NInf)"

text \<open>binary32: 24 bits, units from \<open>2 powi -149\<close> to \<open>2 powi 104\<close>.\<close>

definition f32 :: "real \<Rightarrow> cfloat" where
  "f32 = fp_round 24 (- 149) 104"

text \<open>binary64: 53 bits, units from \<open>2 powi -1074\<close> to \<open>2 powi 971\<close>.\<close>

definition f64 :: "real \<Rightarrow> cfloat" where
  "f64 = fp_round 53 (- 1074) 971"

fun f32_add :: "cfloat \<Rightarrow> cfloat \<Rightarrow> cfloat" where
  "f32_add (Fin a) (Fin b) = f32 (a + b)"
| "f32_add NaN _ = NaN"
| "f32_add _ NaN = NaN"
| "f32_add PInf NInf = NaN"
| "f32_add NInf PInf = NaN"
| "f32_add PInf _ = PInf"
| "f32_add _ PInf = PInf"
| "f32_add NInf _ = NInf"
| "f32_add _ NInf = NInf"

fun f32_neg :: "cfloat \<Rightarrow> cfloat" where
  "f32_neg (Fin a) = Fin (- a)"
| "f32_neg PInf = NInf"
| "f32_neg NInf = PInf"
| "f32_neg NaN = NaN"

fun f32_sub :: "cfloat \<Rightarrow> cfloat \<Rightarrow> cfloat" where
  "f32_sub (Fin a) (Fin b) = f32 (a - b)"
| "f32_sub a b = f32_add a (f32_neg b)"

text \<open>The infinity with the sign of the product (or quotient) of two signs.\<close>

definition signed_inf :: "bool \<Rightarrow> bool \<Rightarrow> cfloat" where
  "signed_inf neg1 neg2 = (if neg1 = neg2 then PInf else NInf)"

fun f32_mul :: "cfloat \<Rightarrow> cfloat \<Rightarrow> cfloat" where
  "f32_mul (Fin a) (Fin b) = f32 (a * b)"
| "f32_mul NaN _ = NaN"
| "f32_mul _ NaN = NaN"
| "f32_mul (Fin a) PInf = (if a = 0 then NaN else signed_inf (a < 0) False)"
| "f32_mul (Fin a) NInf = (if a = 0 then NaN else signed_inf (a < 0) True)"
| "f32_mul PInf (Fin b) = (if b = 0 then NaN else signed_inf False (b < 0))"
| "f32_mul NInf (Fin b) = (if b = 0 then NaN else signed_inf True (b < 0))"
| "f32_mul PInf PInf = PInf"
| "f32_mul PInf NInf = NInf"
| "f32_mul NInf PInf = NInf"
| "f32_mul NInf NInf = PInf"

fun f32_div :: "cfloat \<Rightarrow> cfloat \<Rightarrow> cfloat" where
  "f32_div (Fin a) (Fin b) =
     (if b = 0 then (if a = 0 then NaN else if 0 < a then PInf else NInf) else f32 (a / b))"
| "f32_div NaN _ = NaN"
| "f32_div _ NaN = NaN"
| "f32_div (Fin a) _ = Fin 0"
| "f32_div PInf (Fin b) = signed_inf False (b < 0)"
| "f32_div NInf (Fin b) = signed_inf True (b < 0)"
| "f32_div _ _ = NaN"

text \<open>The comparisons of C: every comparison with a NaN is false.\<close>

fun f32_lt :: "cfloat \<Rightarrow> cfloat \<Rightarrow> bool" where
  "f32_lt (Fin a) (Fin b) = (a < b)"
| "f32_lt NaN _ = False"
| "f32_lt _ NaN = False"
| "f32_lt _ NInf = False"
| "f32_lt PInf _ = False"
| "f32_lt _ _ = True"

fun f32_ge :: "cfloat \<Rightarrow> cfloat \<Rightarrow> bool" where
  "f32_ge (Fin a) (Fin b) = (b \<le> a)"
| "f32_ge NaN _ = False"
| "f32_ge _ NaN = False"
| "f32_ge PInf _ = True"
| "f32_ge _ NInf = True"
| "f32_ge _ _ = False"

definition f32_gt :: "cfloat \<Rightarrow> cfloat \<Rightarrow> bool" where
  "f32_gt a b = f32_lt b a"

text \<open>Conversions of the integer types to \<^verbatim>\<open>float\<close> round as the operations do.\<close>

definition f32_of_u32 :: "32 word \<Rightarrow> cfloat" where
  "f32_of_u32 w = f32 (real (unat w))"

definition f32_of_u64 :: "64 word \<Rightarrow> cfloat" where
  "f32_of_u64 w = f32 (real (unat w))"

definition f32_of_int :: "int \<Rightarrow> cfloat" where
  "f32_of_int i = f32 (of_int i)"

text \<open>
  \<^verbatim>\<open>sqrt\<close> of \<^verbatim>\<open>math.h\<close> takes and returns a \<^verbatim>\<open>double\<close>: the \<^verbatim>\<open>float\<close> argument
  is promoted without change, the correctly rounded root is a binary64 number, and
  returning it from a function of type \<^verbatim>\<open>float\<close> rounds it to binary32.
\<close>

fun c_sqrt :: "cfloat \<Rightarrow> cfloat" where
  "c_sqrt (Fin x) = (if x < 0 then NaN else f64 (sqrt x))"
| "c_sqrt PInf = PInf"
| "c_sqrt NInf = NaN"
| "c_sqrt NaN = NaN"

fun f32_of_f64 :: "cfloat \<Rightarrow> cfloat" where
  "f32_of_f64 (Fin y) = f32 y"
| "f32_of_f64 d = d"

section \<open>The world outside the program\<close>

text \<open>
  What the harness observes of its environment: the text written so far to each
  \<^verbatim>\<open>FILE*\<close> (a handle is a number), the values that the coming calls of the monotonic
  clock return, and whether the coming allocations (\<^verbatim>\<open>malloc\<close>, \<^verbatim>\<open>calloc\<close>,
  \<^verbatim>\<open>realloc\<close>, \<^verbatim>\<open>strdup\<close>, in call order) succeed; an allocation past the end of
  that list succeeds.
\<close>

record world =
  files :: "nat \<Rightarrow> string"
  clock :: "64 word list"
  allocs :: "bool list"

text \<open>
  Undefined behaviour and the end of the modelled clock are results of their own: a null
  pointer dereferenced, a null string printed with \<^verbatim>\<open>%s\<close>, a write past the end of a
  buffer, an \<^verbatim>\<open>int\<close> that overflows, and a clock asked for more readings than the
  world holds.
\<close>

datatype fault = NullDeref | NullString | BufferOverflow | SignedOverflow | ClockEnd

definition alloc :: "world \<Rightarrow> bool \<times> world" where
  "alloc w = (case allocs w of [] \<Rightarrow> (True, w) | a # as \<Rightarrow> (a, w\<lparr>allocs := as\<rparr>))"

definition fprintf :: "nat \<Rightarrow> string \<Rightarrow> world \<Rightarrow> world" where
  "fprintf f s w = w\<lparr>files := (files w)(f := files w f @ s)\<rparr>"

text \<open>\<^verbatim>\<open>bench_now\<close>: the next reading of the clock, in nanoseconds.\<close>

definition bench_now :: "world \<Rightarrow> fault + (64 word \<times> world)" where
  "bench_now w = (case clock w of [] \<Rightarrow> Inl ClockEnd | t # ts \<Rightarrow> Inr (t, w\<lparr>clock := ts\<rparr>))"

text \<open>\<^verbatim>\<open>SECONDS\<close> expands to \<^verbatim>\<open>1 * 1000 * 1000 * 1000\<close>; as an integer it is \<open>10^9\<close>.\<close>

definition SECONDS :: "64 word" where
  "SECONDS = 1 * 1000 * 1000 * 1000"

section \<open>Formatting\<close>

text \<open>The decimal digits of a natural number.\<close>

function dec_digits :: "nat \<Rightarrow> string" where
  "dec_digits n = (if n < 10 then [''0123456789'' ! n]
                   else dec_digits (n div 10) @ [''0123456789'' ! (n mod 10)])"
  by pat_completeness auto
termination
  by (relation "measure id") auto

declare dec_digits.simps [simp del]

text \<open>
  \<^verbatim>\<open>printf("%.2f", x)\<close>: the exact value rounded to hundredths (ties to even), a sign for
  a negative value, at least one digit before the point and two after it.
\<close>

fun fmt_2f :: "cfloat \<Rightarrow> string" where
  "fmt_2f (Fin x) =
     (let n = nat (rne (\<bar>x\<bar> * 100))
      in (if x < 0 then ''-'' else []) @ dec_digits (n div 100) @ ''.''
         @ [''0123456789'' ! (n mod 100 div 10), ''0123456789'' ! (n mod 10)])"
| "fmt_2f PInf = ''inf''"
| "fmt_2f NInf = ''-inf''"
| "fmt_2f NaN = ''nan''"

declare fmt_2f.simps [simp del]

text \<open>
  The loop of \<^verbatim>\<open>bench_human_number\<close>:
  \<^verbatim>\<open>while (number >= threshold && ++level <= level_cap) number /= threshold;\<close>
  The level is incremented before it is compared with the cap, so the loop can leave the
  level one above the cap without dividing.
\<close>

function human_loop :: "int \<Rightarrow> cfloat \<Rightarrow> int \<Rightarrow> cfloat \<times> int" where
  "human_loop level_cap number level =
     (if f32_ge number (f32_of_int 1000)
      then (if level + 1 \<le> level_cap
            then human_loop level_cap (f32_div number (f32_of_int 1000)) (level + 1)
            else (number, level + 1))
      else (number, level))"
  by pat_completeness auto
termination
  by (relation "measure (\<lambda>(level_cap, number, level). nat (level_cap - level))") auto

declare human_loop.simps [simp del]

definition bench_human_number :: "nat \<Rightarrow> cfloat \<Rightarrow> bool \<Rightarrow> world \<Rightarrow> world" where
  "bench_human_number out number time w =
     (let level_cap = (if time then 3 else 4);
          (number', level) = human_loop level_cap number 0
      in if time
         then (if level = 0 then fprintf out (fmt_2f number' @ ''ns'') w
               else if level = 1 then fprintf out (fmt_2f number' @ ''us'') w
               else if level = 2 then fprintf out (fmt_2f number' @ ''ms'') w
               else fprintf out (fmt_2f number' @ ''s'') w)
         else (if level = 0 then fprintf out (fmt_2f number') w
               else if level = 1 then fprintf out (fmt_2f number' @ ''k'') w
               else if level = 2 then fprintf out (fmt_2f number' @ ''m'') w
               else if level = 3 then fprintf out (fmt_2f number' @ ''b'') w
               else fprintf out (fmt_2f number' @ ''t'') w))"

section \<open>Dynamic arrays\<close>

text \<open>
  A \<^verbatim>\<open>bench_array_t\<close>: the buffer \<^verbatim>\<open>entries\<close> is null (\<open>None\<close>) or holds the
  pointers pushed so far, and \<^verbatim>\<open>size\<close> is their number. Sizes are natural numbers: a
  \<^verbatim>\<open>size_t\<close> cannot overflow before the memory for the buffer is exhausted.
\<close>

record 'a bench_array_t =
  capacity :: nat
  entries :: "'a list option"

definition size_n :: "'a bench_array_t \<Rightarrow> nat" where
  "size_n array = (case entries array of None \<Rightarrow> 0 | Some xs \<Rightarrow> length xs)"

definition bench_array_resize ::
  "'a bench_array_t \<Rightarrow> nat \<Rightarrow> world \<Rightarrow> bool \<times> 'a bench_array_t \<times> world" where
  "bench_array_resize array cap w =
     (if cap < size_n array then (False, array, w)
      else (let (ok, w') = alloc w
            in if \<not> ok then (False, array, w')
               else (True,
                     array\<lparr>capacity := cap,
                           entries := Some (case entries array of None \<Rightarrow> [] | Some xs \<Rightarrow> xs)\<rparr>,
                     w')))"

definition bench_array_init :: "nat \<Rightarrow> world \<Rightarrow> bool \<times> 'a bench_array_t \<times> world" where
  "bench_array_init cap w = bench_array_resize \<lparr>capacity = 0, entries = None\<rparr> cap w"

definition bench_array_push ::
  "'a bench_array_t \<Rightarrow> 'a \<Rightarrow> world \<Rightarrow> fault + (bool \<times> 'a bench_array_t \<times> world)" where
  "bench_array_push array ptr w =
     (let (ok, array', w') =
            (if size_n array = capacity array
             then bench_array_resize array (capacity array * 2) w
             else (True, array, w))
      in if \<not> ok then Inr (False, array', w')
         else (case entries array' of
                 None \<Rightarrow> Inl NullDeref
               | Some xs \<Rightarrow>
                   if capacity array' \<le> length xs then Inl BufferOverflow
                   else Inr (True, array'\<lparr>entries := Some (xs @ [ptr])\<rparr>, w')))"

section \<open>Streaming statistics\<close>

record bench_stats_t =
  count :: "32 word"
  total :: "64 word"
  mean :: cfloat
  d_squared :: cfloat

definition bench_stats_init :: bench_stats_t where
  "bench_stats_init = \<lparr>count = 0, total = 0, mean = Fin 0, d_squared = Fin 0\<rparr>"

definition bench_stats_push :: "bench_stats_t \<Rightarrow> 64 word \<Rightarrow> bench_stats_t" where
  "bench_stats_push stats v =
     (let count' = count stats + 1;
          total' = total stats + v;
          new_mean = f32_add (mean stats)
                       (f32_div (f32_sub (f32_of_u64 v) (mean stats)) (f32_of_u32 count'));
          d_squared_increment = f32_mul (f32_sub (f32_of_u64 v) new_mean)
                                        (f32_sub (f32_of_u64 v) (mean stats))
      in \<lparr>count = count', total = total', mean = new_mean,
          d_squared = f32_add (d_squared stats) d_squared_increment\<rparr>)"

definition bench_stats_variance :: "bench_stats_t \<Rightarrow> cfloat" where
  "bench_stats_variance stats = f32_div (d_squared stats) (f32_of_u32 (count stats))"

definition bench_stats_stddev :: "bench_stats_t \<Rightarrow> cfloat" where
  "bench_stats_stddev stats = f32_of_f64 (c_sqrt (bench_stats_variance stats))"

text \<open>
  \<^verbatim>\<open>((float) count / (float) total) * SECONDS\<close>, where the macro is not parenthesised:
  the quotient is multiplied by 1, then three times by 1000, each product rounded.
\<close>

definition bench_stats_ops_per_sec :: "bench_stats_t \<Rightarrow> cfloat" where
  "bench_stats_ops_per_sec stats =
     f32_mul (f32_mul (f32_mul (f32_mul
       (f32_div (f32_of_u32 (count stats)) (f32_of_u64 (total stats)))
       (f32_of_int 1)) (f32_of_int 1000)) (f32_of_int 1000)) (f32_of_int 1000)"

text \<open>The two bytes \<open>0xC2 0xB1\<close> are the plus-minus sign of the format string in UTF-8.\<close>

definition bench_stats_print :: "bench_stats_t \<Rightarrow> nat \<Rightarrow> world \<Rightarrow> world" where
  "bench_stats_print stats out w =
     (let w1 = bench_human_number out (bench_stats_ops_per_sec stats) False w;
          w2 = fprintf out
                 ('' i/s ('' @ [CHR 0xC2, CHR 0xB1] @ fmt_2f (bench_stats_stddev stats) @ ''%) ('')
                 w1;
          w3 = bench_human_number out (mean stats) True w2
      in fprintf out ''/i)'' w3)"

section \<open>Measurements and suites\<close>

text \<open>
  A name is the result of \<^verbatim>\<open>strdup\<close>: \<open>None\<close> is the null pointer of a failed copy.
  The field \<^verbatim>\<open>name\<close> of a measurement is \<open>mname\<close> here, apart from the suite's.
\<close>

record bench_measurement_t =
  mname :: "string option"
  stats :: bench_stats_t

record bench_t =
  name :: "string option"
  out :: nat
  indent :: int
  data :: nat
  target_time :: "64 word"
  measurements :: "bench_measurement_t bench_array_t"

definition INT_MAX :: int where
  "INT_MAX = 2147483647"

text \<open>\<^verbatim>\<open>_bench_print_indent\<close>: one space for each \<open>i\<close> with \<open>0 \<le> i < indent\<close>.\<close>

definition bench_print_indent :: "bench_t \<Rightarrow> world \<Rightarrow> world" where
  "bench_print_indent b w = fprintf (out b) (replicate (nat (indent b)) CHR '' '') w"

text \<open>
  \<^verbatim>\<open>bench_create\<close>: the suite is allocated (the result of \<^verbatim>\<open>malloc\<close> is used
  unchecked), the name copied, the array of 16 slots allocated; when that fails the
  function returns the null pointer (\<open>None\<close>) and prints nothing.
\<close>

definition bench_create ::
  "string \<Rightarrow> nat \<Rightarrow> int \<Rightarrow> nat \<Rightarrow> world \<Rightarrow> fault + (bench_t option \<times> world)" where
  "bench_create nm outf ind dat w =
     (let (ok_b, w1) = alloc w
      in if \<not> ok_b then Inl NullDeref
         else (let (ok_n, w2) = alloc w1;
                   (ok_a, arr, w3) = bench_array_init 16 w2;
                   b = \<lparr>name = (if ok_n then Some nm else None), out = outf, indent = ind,
                        data = dat, target_time = SECONDS, measurements = arr\<rparr>
               in if \<not> ok_a then Inr (None, w3)
                  else (let w4 = (if ind = 0 then fprintf outf ''benc.h v1.0.0\<newline>'' w3 else w3);
                            w5 = bench_print_indent b w4
                        in case name b of
                             None \<Rightarrow> Inl NullString
                           | Some s \<Rightarrow> Inr (Some b, fprintf outf (''# '' @ s @ ''\<newline>'') w5))))"

text \<open>\<^verbatim>\<open>_bench_compare_measurement\<close>, the comparator handed to \<^verbatim>\<open>qsort\<close>.\<close>

definition bench_compare_measurement :: "bench_measurement_t \<Rightarrow> bench_measurement_t \<Rightarrow> int" where
  "bench_compare_measurement ma mb =
     (let current = bench_stats_ops_per_sec (stats ma);
          next = bench_stats_ops_per_sec (stats mb)
      in if f32_gt current next then - 1 else if f32_lt current next then 1 else 0)"

text \<open>
  The loop of \<^verbatim>\<open>bench_compare\<close> over the sorted entries; \<open>first\<close> is the statistics of
  the first entry once it has been printed (\<open>None\<close> is the null pointer before that).
\<close>

fun compare_loop ::
  "bench_t \<Rightarrow> bench_stats_t option \<Rightarrow> bench_measurement_t list \<Rightarrow> world \<Rightarrow> fault + world" where
  "compare_loop b first [] w = Inr w"
| "compare_loop b first (m # ms) w =
     (let w1 = bench_print_indent b w
      in case mname m of
           None \<Rightarrow> Inl NullString
         | Some nm \<Rightarrow>
             (case first of
                None \<Rightarrow>
                  compare_loop b (Some (stats m)) ms
                    (fprintf (out b) (''  - '' @ nm @ '' (fastest)\<newline>'') w1)
              | Some f \<Rightarrow>
                  compare_loop b first ms
                    (fprintf (out b)
                       ('' ('' @ fmt_2f (f32_sub (f32_mul (f32_div (mean (stats m)) (mean f))
                                                   (f32_of_int 100)) (f32_of_int 100))
                        @ ''% slower)\<newline>'')
                       (fprintf (out b) (''  - '' @ nm) w1))))"

text \<open>
  \<^verbatim>\<open>bench_compare\<close>. \<^verbatim>\<open>qsort\<close> belongs to the C library, not to this program: it is
  the parameter \<open>qsort\<close>, which takes the comparator and the entries and returns them
  sorted. Freeing the suite at the end leaves nothing to observe.
\<close>

type_synonym qsort_t =
  "(bench_measurement_t \<Rightarrow> bench_measurement_t \<Rightarrow> int) \<Rightarrow> bench_measurement_t list
     \<Rightarrow> bench_measurement_t list"

definition bench_compare :: "qsort_t \<Rightarrow> bench_t \<Rightarrow> world \<Rightarrow> fault + world" where
  "bench_compare qsort b w =
     (let m = measurements b
      in if 1 < size_n m
         then (case entries m of
                 None \<Rightarrow> Inl NullDeref
               | Some xs \<Rightarrow>
                   compare_loop b None (qsort bench_compare_measurement xs)
                     (fprintf (out b) ''Comparing...\<newline>'' (bench_print_indent b w)))
         else Inr w)"

text \<open>
  \<^verbatim>\<open>bench_group\<close>: the group function \<open>fn\<close> receives the child suite and the world and
  returns both as it leaves them. When \<^verbatim>\<open>bench_create\<close> returns the null pointer,
  \<^verbatim>\<open>bench_compare\<close> dereferences it.
\<close>

definition bench_group ::
  "qsort_t \<Rightarrow> bench_t \<Rightarrow> string \<Rightarrow> (bench_t \<Rightarrow> world \<Rightarrow> fault + (bench_t \<times> world)) \<Rightarrow> nat
     \<Rightarrow> world \<Rightarrow> fault + world" where
  "bench_group qsort b nm fn ptr w =
     (if INT_MAX < indent b + 2 then Inl SignedOverflow
      else (case bench_create nm (out b) (indent b + 2) ptr w of
              Inl e \<Rightarrow> Inl e
            | Inr (None, w1) \<Rightarrow> Inl NullDeref
            | Inr (Some b2, w1) \<Rightarrow>
                (case fn b2 w1 of
                   Inl e \<Rightarrow> Inl e
                 | Inr (b2', w2) \<Rightarrow> bench_compare qsort b2' w2)))"

section \<open>The runner\<close>

text \<open>
  The sampling loop of \<^verbatim>\<open>bench_measure\<close>:
  \<^verbatim>\<open>while (m->stats.total < b->target_time) { start = bench_now(); fn(data); end = bench_now(); bench_stats_push(&m->stats, end - start); }\<close>
  Each iteration takes two readings of the clock. The measured function is opaque: what
  the harness sees of it is the time between the two readings.
\<close>

fun sample_loop ::
  "64 word \<Rightarrow> bench_stats_t \<Rightarrow> 64 word list \<Rightarrow> fault + (bench_stats_t \<times> 64 word list)" where
  "sample_loop target st clk =
     (if total st < target
      then (case clk of
              s # e # rest \<Rightarrow> sample_loop target (bench_stats_push st (e - s)) rest
            | _ \<Rightarrow> Inl ClockEnd)
      else Inr (st, clk))"

declare sample_loop.simps [simp del]

text \<open>
  \<^verbatim>\<open>bench_measure\<close>. The results of \<^verbatim>\<open>malloc\<close> and of \<^verbatim>\<open>bench_array_push\<close> are
  not checked. The pushed slot and \<open>m\<close> are the same object, so the slot holds the
  statistics that the loop leaves in \<open>m\<close>. The function returns 0.
\<close>

definition bench_measure :: "bench_t \<Rightarrow> string \<Rightarrow> world \<Rightarrow> fault + (int \<times> bench_t \<times> world)" where
  "bench_measure b nm w =
     (let w1 = fprintf (out b) (nm @ '' - '') (bench_print_indent b w);
          (ok_m, w2) = alloc w1
      in if \<not> ok_m then Inl NullDeref
         else (let (ok_n, w3) = alloc w2;
                   m = \<lparr>mname = (if ok_n then Some nm else None), stats = bench_stats_init\<rparr>
               in case bench_array_push (measurements b) m w3 of
                    Inl e \<Rightarrow> Inl e
                  | Inr (pushed, arr, w4) \<Rightarrow>
                      (case bench_now w4 of
                         Inl e \<Rightarrow> Inl e
                       | Inr (start, w5) \<Rightarrow>
                           (case sample_loop (target_time b) (stats m) (clock w5) of
                              Inl e \<Rightarrow> Inl e
                            | Inr (st, clk) \<Rightarrow>
                                (let arr' = (if pushed
                                             then arr\<lparr>entries :=
                                                    map_option (\<lambda>xs. butlast xs @ [m\<lparr>stats := st\<rparr>])
                                                      (entries arr)\<rparr>
                                             else arr);
                                     w6 = bench_stats_print st (out b) (w5\<lparr>clock := clk\<rparr>)
                                 in Inr (0, b\<lparr>measurements := arr'\<rparr>,
                                         fprintf (out b) ''\<newline>'' w6))))))"

section \<open>Notions the claims are stated with\<close>

text \<open>
  The durations that the sampling loop measures on a list of clock readings: the
  difference of each pair of consecutive readings, as \<^verbatim>\<open>end - start\<close> computes it.
\<close>

fun durations :: "64 word list \<Rightarrow> 64 word list" where
  "durations (s # e # clk) = (e - s) # durations clk"
| "durations clk = []"

text \<open>The statistics after pushing a list of values, first to last.\<close>

definition pushes :: "bench_stats_t \<Rightarrow> 64 word list \<Rightarrow> bench_stats_t" where
  "pushes st vs = foldl bench_stats_push st vs"

text \<open>
  The formatter as the specification words it: divide the value by 1000 while it is at
  least 1000, counting the divisions (the level), at most \<open>cap\<close> times; print the scaled
  value with two decimals and the unit of the level.
\<close>

fun scale_spec :: "nat \<Rightarrow> cfloat \<Rightarrow> cfloat \<times> nat" where
  "scale_spec 0 v = (v, 0)"
| "scale_spec (Suc cap) v =
     (if f32_ge v (f32_of_int 1000)
      then (case scale_spec cap (f32_div v (f32_of_int 1000)) of (v', k) \<Rightarrow> (v', Suc k))
      else (v, 0))"

definition unit_suffix :: "bool \<Rightarrow> nat \<Rightarrow> string" where
  "unit_suffix is_time k =
     (if is_time then [''ns'', ''us'', ''ms'', ''s''] ! k else ['''', ''k'', ''m'', ''b'', ''t''] ! k)"

definition format_spec :: "cfloat \<Rightarrow> bool \<Rightarrow> string" where
  "format_spec v is_time =
     (case scale_spec (if is_time then 3 else 4) v of (v', k) \<Rightarrow> fmt_2f v' @ unit_suffix is_time k)"

text \<open>The first \<open>n\<close> allocations that the world will be asked for all succeed.\<close>

definition allocs_succeed :: "nat \<Rightarrow> world \<Rightarrow> bool" where
  "allocs_succeed n w = list_all id (take n (allocs w))"

text \<open>The header that a new suite prints: the banner at indent 0, then its indented name.\<close>

definition suite_header :: "int \<Rightarrow> string \<Rightarrow> string" where
  "suite_header ind nm =
     (if ind = 0 then ''benc.h v1.0.0\<newline>'' else []) @ replicate (nat ind) CHR '' ''
     @ ''# '' @ nm @ ''\<newline>''"

text \<open>
  What the C standard promises of \<^verbatim>\<open>qsort\<close> on the entries \<open>xs\<close> with the comparator
  \<open>cmp\<close>: the result holds the same elements, and no element is placed before one that the
  comparator orders before it. The order of elements that compare equal is not specified.
\<close>

definition qsort_sorts ::
  "(('a \<Rightarrow> 'a \<Rightarrow> int) \<Rightarrow> 'a list \<Rightarrow> 'a list) \<Rightarrow> ('a \<Rightarrow> 'a \<Rightarrow> int) \<Rightarrow> 'a list \<Rightarrow> bool" where
  "qsort_sorts qsort cmp xs =
     ((\<forall>x. count_list (qsort cmp xs) x = count_list xs x)
      \<and> sorted_wrt (\<lambda>a c. cmp a c \<le> 0) (qsort cmp xs))"

text \<open>A sorting function to run \<^verbatim>\<open>bench_compare\<close> with: insertion sort by the comparator.\<close>

fun insert_by :: "('a \<Rightarrow> 'a \<Rightarrow> int) \<Rightarrow> 'a \<Rightarrow> 'a list \<Rightarrow> 'a list" where
  "insert_by cmp x [] = [x]"
| "insert_by cmp x (y # ys) = (if cmp x y \<le> 0 then x # y # ys else y # insert_by cmp x ys)"

definition isort_by :: "('a \<Rightarrow> 'a \<Rightarrow> int) \<Rightarrow> 'a list \<Rightarrow> 'a list" where
  "isort_by cmp xs = foldr (insert_by cmp) xs []"

text \<open>
  The ranking report as the specification words it: the first entry is marked fastest,
  every later entry is annotated with \<open>(mean / fastest mean) * 100 - 100\<close> percent slower.
\<close>

definition percent_slower :: "bench_measurement_t \<Rightarrow> bench_measurement_t \<Rightarrow> cfloat" where
  "percent_slower m fastest =
     f32_sub (f32_mul (f32_div (mean (stats m)) (mean (stats fastest))) (f32_of_int 100))
             (f32_of_int 100)"

definition name_text :: "bench_measurement_t \<Rightarrow> string" where
  "name_text m = (case mname m of None \<Rightarrow> [] | Some s \<Rightarrow> s)"

definition compare_report :: "string \<Rightarrow> bench_measurement_t list \<Rightarrow> string" where
  "compare_report ind ys =
     (case ys of
        [] \<Rightarrow> []
      | fastest # rest \<Rightarrow>
          ind @ ''  - '' @ name_text fastest @ '' (fastest)\<newline>''
          @ concat (map (\<lambda>m. ind @ ''  - '' @ name_text m @ '' (''
                             @ fmt_2f (percent_slower m fastest) @ ''% slower)\<newline>'') rest))"




section \<open>Properties of the rounding\<close>

lemma ilog2_bounds: "0 < x \<Longrightarrow> 2 powi (ilog2 x) \<le> x \<and> x < 2 powi (ilog2 x + 1)"
proof (induction x rule: ilog2.induct)
  case (1 x)
  show ?case
  proof (cases "x < 1")
    case True
    with 1 have ih: "2 powi (ilog2 (2 * x)) \<le> 2 * x \<and> 2 * x < 2 powi (ilog2 (2 * x) + 1)"
      by simp
    have e: "ilog2 x = ilog2 (2 * x) - 1"
      using True 1(3) by (subst ilog2.simps) simp
    show ?thesis using ih unfolding e
      by (simp add: power_int_diff power_int_add)
  next
    case False
    show ?thesis
    proof (cases "2 \<le> x")
      case True
      with 1 False have ih: "2 powi (ilog2 (x / 2)) \<le> x / 2 \<and> x / 2 < 2 powi (ilog2 (x / 2) + 1)"
        by simp
      have e: "ilog2 x = ilog2 (x / 2) + 1"
        using True False 1(3) by (subst ilog2.simps) simp
      show ?thesis using ih unfolding e
        by (simp add: power_int_add)
    next
      case F2: False
      have e: "ilog2 x = 0"
        using F2 False 1(3) by (subst ilog2.simps) simp
      show ?thesis using F2 False unfolding e by simp
    qed
  qed
qed

lemma powi2_mono: "a \<le> b \<Longrightarrow> (2::real) powi a \<le> 2 powi b"
  by (rule power_int_increasing) simp_all

lemma powi2_strict_mono: "a < b \<Longrightarrow> (2::real) powi a < 2 powi b"
  by (rule power_int_strict_increasing) simp_all

lemma powi2_less_imp: "(2::real) powi a < 2 powi b \<Longrightarrow> a < b"
  using powi2_mono [of b a] by (cases "a < b") simp_all

lemma powi2_le_imp: "(2::real) powi a \<le> 2 powi b \<Longrightarrow> a \<le> b"
  using powi2_strict_mono [of b a] by (cases "a \<le> b") simp_all

lemma ilog2_unique:
  assumes "2 powi k \<le> x" "x < 2 powi (k + 1)"
  shows "ilog2 x = k"
proof -
  have "(0::real) < 2 powi k" by simp
  then have pos: "0 < x" using assms(1) by linarith
  from ilog2_bounds [OF pos] have b: "2 powi (ilog2 x) \<le> x" "x < 2 powi (ilog2 x + 1)" by simp_all
  have "(2::real) powi k < 2 powi (ilog2 x + 1)" using assms(1) b(2) by linarith
  then have 1: "k < ilog2 x + 1" by (rule powi2_less_imp)
  have "(2::real) powi (ilog2 x) < 2 powi (k + 1)" using assms(2) b(1) by linarith
  then have 2: "ilog2 x < k + 1" by (rule powi2_less_imp)
  from 1 2 show ?thesis by linarith
qed

lemma rne_of_int: "rne (of_int n) = n"
  by (simp add: rne_def)

lemma rne_cases: "rne x = \<lfloor>x\<rfloor> \<or> rne x = \<lfloor>x\<rfloor> + 1"
  by (simp add: rne_def Let_def)

lemma rne_err: "\<bar>of_int (rne x) - x\<bar> \<le> 1/2"
  unfolding rne_def Let_def by (auto; linarith)

lemma rne_mono: "x \<le> y \<Longrightarrow> rne x \<le> rne y"
proof -
  assume xy: "x \<le> y"
  have fl: "\<lfloor>x\<rfloor> \<le> \<lfloor>y\<rfloor>" using xy by (rule floor_mono)
  show ?thesis
  proof (cases "\<lfloor>x\<rfloor> = \<lfloor>y\<rfloor>")
    case True
    then show ?thesis using xy unfolding rne_def Let_def by (auto; linarith)
  next
    case False
    then have "\<lfloor>x\<rfloor> + 1 \<le> \<lfloor>y\<rfloor>" using fl by linarith
    moreover have "rne x \<le> \<lfloor>x\<rfloor> + 1" using rne_cases [of x] by linarith
    moreover have "\<lfloor>y\<rfloor> \<le> rne y" using rne_cases [of y] by linarith
    ultimately show ?thesis by linarith
  qed
qed

lemma rne_ge_int: "of_int n \<le> x \<Longrightarrow> n \<le> rne x"
  using rne_mono [of "of_int n" x] by (simp add: rne_of_int)

lemma rne_le_int: "x \<le> of_int n \<Longrightarrow> rne x \<le> n"
  using rne_mono [of x "of_int n"] by (simp add: rne_of_int)
lemma rne_neg: "rne (- x) = - rne x"
proof (cases "x = of_int \<lfloor>x\<rfloor>")
  case True
  then obtain n where n: "x = of_int n" by blast
  then have "- x = of_int (- n)" by simp
  then have "rne (- x) = - n" by (simp only: rne_of_int)
  then show ?thesis using n by (simp only: rne_of_int)
next
  case False
  then have fl: "\<lfloor>- x\<rfloor> = - \<lfloor>x\<rfloor> - 1"
    by (simp add: floor_minus ceiling_altdef)
  have d: "- x - of_int (- \<lfloor>x\<rfloor> - 1) = 1 - (x - of_int \<lfloor>x\<rfloor>)" by simp
  show ?thesis unfolding rne_def Let_def fl d by auto
qed

lemma fp_expt_neg: "fp_expt p emin (- x) = fp_expt p emin x"
  by (simp add: fp_expt_def)

lemma fp_near_neg: "fp_near p emin (- x) = - fp_near p emin x"
  by (simp add: fp_near_def fp_expt_neg rne_neg)

lemma fp_near_zero: "fp_near p emin 0 = 0"
  by (simp add: fp_near_def rne_def)

lemma fp_near_err: "\<bar>fp_near p emin x - x\<bar> \<le> 2 powi (fp_expt p emin x) / 2"
proof -
  define e where "e = fp_expt p emin x"
  define n where "n = rne (x / 2 powi e)"
  have pe: "(0::real) < 2 powi e" by simp
  have "\<bar>of_int n - x / 2 powi e\<bar> \<le> 1/2" unfolding n_def by (rule rne_err)
  then have "\<bar>of_int n - x / 2 powi e\<bar> * 2 powi e \<le> 1/2 * 2 powi e"
    using pe by (simp only: mult_le_cancel_right_pos)
  moreover have "\<bar>of_int n - x / 2 powi e\<bar> * 2 powi e = \<bar>(of_int n - x / 2 powi e) * 2 powi e\<bar>"
    using pe by (simp add: abs_mult)
  moreover have "(of_int n - x / 2 powi e) * 2 powi e = of_int n * 2 powi e - x"
    using pe by (simp add: left_diff_distrib)
  ultimately show ?thesis unfolding fp_near_def e_def [symmetric] n_def [symmetric] by simp
qed
lemma powi2_nonneg_int: "0 \<le> j \<Longrightarrow> (2::real) powi j = of_int (2 ^ nat j)"
  by (simp add: power_int_def)

lemma fp_expt_ge_emin: "emin \<le> fp_expt p emin x"
  by (simp add: fp_expt_def)

lemma fp_expt_pos_cases:
  "fp_expt p emin x = emin \<or> fp_expt p emin x = ilog2 \<bar>x\<bar> - (int p - 1)"
  by (auto simp: fp_expt_def max_def)

text \<open>A number that is a multiple of the unit of its own binade is not changed.\<close>

lemma fp_near_exact:
  assumes "x = of_int n * 2 powi k" "fp_expt p emin x \<le> k"
  shows "fp_near p emin x = x"
proof -
  define e where "e = fp_expt p emin x"
  have "x / 2 powi e = of_int n * 2 powi (k - e)"
    using assms(1) by (simp add: power_int_diff)
  also have "\<dots> = of_int (n * 2 ^ nat (k - e))"
    using assms(2) by (simp add: powi2_nonneg_int e_def)
  finally have "rne (x / 2 powi e) = n * 2 ^ nat (k - e)" by (simp only: rne_of_int)
  then have "fp_near p emin x = of_int (n * 2 ^ nat (k - e)) * 2 powi e"
    by (simp add: fp_near_def e_def)
  also have "\<dots> = of_int n * (2 powi (k - e) * 2 powi e)"
    using assms(2) by (simp add: powi2_nonneg_int e_def)
  also have "2 powi (k - e) * 2 powi e = (2::real) powi k"
    by (simp add: power_int_diff)
  finally show ?thesis using assms(1) by simp
qed

lemma fp_near_pos_bounds:
  assumes x: "0 < x" and p: "0 < p"
  shows "0 \<le> rne (x / 2 powi fp_expt p emin x)"
    and "rne (x / 2 powi fp_expt p emin x) \<le> 2 ^ p"
    and "emin < fp_expt p emin x \<Longrightarrow> 2 ^ (p - 1) \<le> rne (x / 2 powi fp_expt p emin x)"
proof -
  define e where "e = fp_expt p emin x"
  define n where "n = rne (x / 2 powi e)"
  let ?L = "ilog2 x"
  have b: "2 powi ?L \<le> x" "x < 2 powi (?L + 1)" using ilog2_bounds [OF x] by simp_all
  have pe: "(0::real) < 2 powi e" by simp
  have ax: "\<bar>x\<bar> = x" using x by simp
  have "0 \<le> x / 2 powi e" using x by simp
  then show "0 \<le> rne (x / 2 powi fp_expt p emin x)"
    unfolding e_def using rne_ge_int [of 0] by simp
  have "?L - (int p - 1) \<le> e" unfolding e_def fp_expt_def ax by simp
  then have "?L + 1 \<le> e + int p" by simp
  then have "(2::real) powi (?L + 1) \<le> 2 powi (e + int p)" by (rule powi2_mono)
  then have "x \<le> 2 powi (e + int p)" using b(2) by linarith
  then have "x / 2 powi e \<le> 2 powi (e + int p) / 2 powi e"
    using pe by (simp only: divide_right_mono less_imp_le)
  also have "2 powi (e + int p) / 2 powi e = (2::real) powi (int p)"
    by (simp add: power_int_add)
  also have "\<dots> = of_int (2 ^ p)" by simp
  finally show "rne (x / 2 powi fp_expt p emin x) \<le> 2 ^ p"
    unfolding e_def by (rule rne_le_int)
  assume "emin < fp_expt p emin x"
  then have e: "e = ?L - (int p - 1)" unfolding e_def fp_expt_def ax by (simp add: max_def split: if_splits)
  have "(2::real) powi (int p - 1) = 2 powi ?L / 2 powi e"
    unfolding e by (simp add: power_int_diff)
  also have "\<dots> \<le> x / 2 powi e" using b(1) pe by (simp only: divide_right_mono less_imp_le)
  finally have "of_int (2 ^ (p - 1)) \<le> x / 2 powi e"
    using p by (simp add: powi2_nonneg_int nat_diff_distrib)
  then show "2 ^ (p - 1) \<le> rne (x / 2 powi fp_expt p emin x)"
    unfolding e_def by (rule rne_ge_int)
qed
lemma pow2_pred_real: "0 < p \<Longrightarrow> (2::real) powi (int p - 1) = of_int (2 ^ (p - 1))"
  by (cases p) simp_all

lemma fp_near_pos_idem:
  assumes x: "0 < x" and p: "0 < p"
  shows "fp_near p emin (fp_near p emin x) = fp_near p emin x"
proof -
  define e where "e = fp_expt p emin x"
  define n where "n = rne (x / 2 powi e)"
  define y where "y = fp_near p emin x"
  have y: "y = of_int n * 2 powi e" by (simp add: y_def fp_near_def e_def n_def)
  have n0: "0 \<le> n" and np: "n \<le> 2 ^ p"
    using fp_near_pos_bounds(1,2) [OF x p, of emin] by (simp_all add: n_def e_def)
  have nlow: "emin < e \<Longrightarrow> 2 ^ (p - 1) \<le> n"
    using fp_near_pos_bounds(3) [OF x p, of emin] by (simp add: n_def e_def)
  have emin: "emin \<le> e" by (simp add: e_def fp_expt_ge_emin)
  have pe: "(0::real) < 2 powi e" by simp
  show ?thesis
  proof (cases "n = 0")
    case True
    then show ?thesis using y by (simp add: y_def [symmetric] fp_near_zero)
  next
    case False
    with n0 have npos: "0 < n" by simp
    then have ypos: "0 < y" using y pe by simp
    have ay: "\<bar>y\<bar> = y" using ypos by simp
    show ?thesis
    proof (cases "n = 2 ^ p")
      case True
      then have y2: "y = 2 powi (e + int p)" using y by (simp add: power_int_add)
      have "ilog2 y = e + int p"
        by (rule ilog2_unique) (simp_all add: y2 powi2_strict_mono)
      then have ex: "fp_expt p emin y = e + 1" using emin by (simp add: fp_expt_def ay)
      have "(2::real) ^ p = 2 ^ (p - 1) * 2" using p by (cases p) simp_all
      then have "y = of_int (2 ^ (p - 1)) * 2 powi (e + 1)"
        unfolding y2 by (simp add: power_int_add)
      then have "fp_near p emin y = y"
        by (rule fp_near_exact) (simp add: ex)
      then show ?thesis by (simp add: y_def)
    next
      case F: False
      with np have nlt: "n < 2 ^ p" by simp
      have yub: "y < 2 powi (e + int p)"
      proof -
        have "(of_int n :: real) < of_int (2 ^ p)" using nlt by (simp only: of_int_less_iff)
        then have "of_int n * 2 powi e < of_int (2 ^ p) * (2::real) powi e"
          using pe by (simp only: mult_strict_right_mono)
        then show ?thesis using y by (simp add: power_int_add mult.commute)
      qed
      have "fp_expt p emin y \<le> e"
      proof (cases "emin < e")
        case True
        then have "2 ^ (p - 1) \<le> n" by (rule nlow)
        then have "(of_int (2 ^ (p - 1)) :: real) \<le> of_int n" by (simp only: of_int_le_iff)
        then have "of_int (2 ^ (p - 1)) * 2 powi e \<le> of_int n * (2::real) powi e"
          using pe by (simp only: mult_right_mono less_imp_le)
        moreover have "of_int (2 ^ (p - 1)) * 2 powi e = (2::real) powi (e + int p - 1)"
        proof -
          have "(2::real) powi ((int p - 1) + e) = 2 powi (int p - 1) * 2 powi e"
            by (rule power_int_add) simp
          moreover have "(int p - 1) + e = e + int p - 1" by simp
          ultimately show ?thesis using pow2_pred_real [OF p] by simp
        qed
        ultimately have "2 powi (e + int p - 1) \<le> of_int n * (2::real) powi e" by linarith
        then have "2 powi (e + int p - 1) \<le> y" unfolding y .
        then have "ilog2 y = e + int p - 1"
          by (rule ilog2_unique) (use yub in simp)
        then show ?thesis using emin by (simp add: fp_expt_def ay)
      next
        case False
        with emin have ee: "e = emin" by simp
        have "2 powi (ilog2 y) \<le> y" using ilog2_bounds [OF ypos] by simp
        then have "(2::real) powi (ilog2 y) < 2 powi (e + int p)" using yub by linarith
        then have "ilog2 y < e + int p" by (rule powi2_less_imp)
        then show ?thesis unfolding ee by (simp add: fp_expt_def ay)
      qed
      with y have "fp_near p emin y = y" by (rule fp_near_exact)
      then show ?thesis by (simp add: y_def)
    qed
  qed
qed

lemma fp_near_idem:
  assumes p: "0 < p"
  shows "fp_near p emin (fp_near p emin x) = fp_near p emin x"
proof -
  consider "0 < x" | "x = 0" | "0 < - x" by linarith
  then show ?thesis
  proof cases
    case 1
    then show ?thesis using p by (rule fp_near_pos_idem)
  next
    case 2
    then show ?thesis by (simp add: fp_near_zero)
  next
    case 3
    then have "fp_near p emin (fp_near p emin (- x)) = fp_near p emin (- x)"
      using p by (rule fp_near_pos_idem)
    then show ?thesis by (simp add: fp_near_neg)
  qed
qed

lemma fp_round_idem:
  assumes "0 < p" "fp_round p emin emax x = Fin y"
  shows "fp_round p emin emax y = Fin y"
proof -
  from assms(2) have y: "y = fp_near p emin x" and b: "\<bar>y\<bar> < 2 powi (emax + int p)"
    by (auto simp: fp_round_def split: if_splits)
  have "fp_near p emin y = y" unfolding y using assms(1) by (rule fp_near_idem)
  then show ?thesis using b by (simp add: fp_round_def)
qed

lemma fp_round_zero: "fp_round p emin emax 0 = Fin 0"
  by (simp add: fp_round_def fp_near_zero)
lemma fp_near_nonneg: "0 \<le> x \<Longrightarrow> 0 \<le> fp_near p emin x"
proof -
  assume "0 \<le> x"
  then have "of_int 0 \<le> x / 2 powi fp_expt p emin x" by simp
  then have "0 \<le> rne (x / 2 powi fp_expt p emin x)" by (rule rne_ge_int)
  then show ?thesis by (simp add: fp_near_def)
qed

lemma fp_near_pos_le_pow:
  assumes x: "0 < x" and p: "0 < p" and k: "emin \<le> k" and xk: "x \<le> 2 powi k"
  shows "fp_near p emin x \<le> 2 powi k"
proof -
  define e where "e = fp_expt p emin x"
  have pe: "(0::real) < 2 powi e" by simp
  have "2 powi (ilog2 x) \<le> x" using ilog2_bounds [OF x] by simp
  then have "(2::real) powi (ilog2 x) \<le> 2 powi k" using xk by linarith
  then have "ilog2 x \<le> k" by (rule powi2_le_imp)
  then have ek: "e \<le> k" using k p x by (simp add: e_def fp_expt_def)
  have "x / 2 powi e \<le> 2 powi k / 2 powi e"
    using xk pe by (simp only: divide_right_mono less_imp_le)
  also have "2 powi k / 2 powi e = (2::real) powi (k - e)" by (simp add: power_int_diff)
  also have "\<dots> = of_int (2 ^ nat (k - e))" using ek by (simp add: powi2_nonneg_int)
  finally have "rne (x / 2 powi e) \<le> 2 ^ nat (k - e)" by (rule rne_le_int)
  then have "(of_int (rne (x / 2 powi e)) :: real) \<le> of_int (2 ^ nat (k - e))"
    by (simp only: of_int_le_iff)
  then have "of_int (rne (x / 2 powi e)) * 2 powi e \<le> of_int (2 ^ nat (k - e)) * (2::real) powi e"
    using pe by (simp only: mult_right_mono less_imp_le)
  also have "of_int (2 ^ nat (k - e)) * (2::real) powi e = 2 powi (k - e) * 2 powi e"
    using ek by (simp add: powi2_nonneg_int)
  also have "\<dots> = 2 powi k" by (simp add: power_int_diff)
  finally show ?thesis by (simp add: fp_near_def e_def)
qed

lemma fp_near_pos_ge_pow:
  assumes x: "0 < x" and p: "0 < p" and k: "emin \<le> k" and xk: "2 powi k \<le> x"
  shows "2 powi k \<le> fp_near p emin x"
proof -
  define e where "e = fp_expt p emin x"
  define n where "n = rne (x / 2 powi e)"
  have pe: "(0::real) < 2 powi e" by simp
  have y: "fp_near p emin x = of_int n * 2 powi e" by (simp add: fp_near_def e_def n_def)
  show ?thesis
  proof (cases "e \<le> k")
    case True
    have "(2::real) powi (k - e) = 2 powi k / 2 powi e" by (simp add: power_int_diff)
    also have "\<dots> \<le> x / 2 powi e" using xk pe by (simp only: divide_right_mono less_imp_le)
    finally have "of_int (2 ^ nat (k - e)) \<le> x / 2 powi e"
      using True by (simp add: powi2_nonneg_int)
    then have "2 ^ nat (k - e) \<le> n" unfolding n_def by (rule rne_ge_int)
    then have "(of_int (2 ^ nat (k - e)) :: real) \<le> of_int n" by (simp only: of_int_le_iff)
    then have "of_int (2 ^ nat (k - e)) * 2 powi e \<le> of_int n * (2::real) powi e"
      using pe by (simp only: mult_right_mono less_imp_le)
    moreover have "of_int (2 ^ nat (k - e)) * (2::real) powi e = 2 powi (k - e) * 2 powi e"
      using True by (simp add: powi2_nonneg_int)
    moreover have "2 powi (k - e) * 2 powi e = (2::real) powi k" by (simp add: power_int_diff)
    ultimately have "2 powi k \<le> of_int n * (2::real) powi e" by linarith
    then show ?thesis unfolding y .
  next
    case False
    then have ke: "k < e" by simp
    with k have "emin < e" by simp
    then have "2 ^ (p - 1) \<le> n"
      using fp_near_pos_bounds(3) [OF x p, of emin] by (simp add: n_def e_def)
    then have "(of_int (2 ^ (p - 1)) :: real) \<le> of_int n" by (simp only: of_int_le_iff)
    then have "of_int (2 ^ (p - 1)) * 2 powi e \<le> of_int n * (2::real) powi e"
      using pe by (simp only: mult_right_mono less_imp_le)
    moreover have "(1::real) \<le> of_int (2 ^ (p - 1))" by simp
    then have "1 * 2 powi e \<le> of_int (2 ^ (p - 1)) * (2::real) powi e"
      using pe by (simp only: mult_right_mono less_imp_le)
    moreover have "(2::real) powi k \<le> 2 powi e" using ke by (simp add: powi2_mono)
    ultimately have "2 powi k \<le> of_int n * (2::real) powi e" by linarith
    then show ?thesis unfolding y .
  qed
qed

lemma fp_near_abs_le_pow:
  assumes p: "0 < p" and k: "emin \<le> k" and xk: "\<bar>x\<bar> \<le> 2 powi k"
  shows "\<bar>fp_near p emin x\<bar> \<le> 2 powi k"
proof -
  consider "0 < x" | "x = 0" | "0 < - x" by linarith
  then show ?thesis
  proof cases
    case 1
    then have "fp_near p emin x \<le> 2 powi k" using p k xk by (intro fp_near_pos_le_pow) simp_all
    moreover have "0 \<le> fp_near p emin x" using 1 by (intro fp_near_nonneg) simp
    ultimately show ?thesis by simp
  next
    case 2
    then show ?thesis by (simp add: fp_near_zero)
  next
    case 3
    then have "fp_near p emin (- x) \<le> 2 powi k" using p k xk by (intro fp_near_pos_le_pow) simp_all
    moreover have "0 \<le> fp_near p emin (- x)" using 3 by (intro fp_near_nonneg) simp
    ultimately show ?thesis by (simp add: fp_near_neg)
  qed
qed

lemma fp_near_pos_rel_err:
  assumes x: "0 < x" and xk: "2 powi (emin + int p - 1) \<le> x"
  shows "\<bar>fp_near p emin x - x\<bar> \<le> 2 powi (- int p) * x"
proof -
  have b: "2 powi (ilog2 x) \<le> x" "x < 2 powi (ilog2 x + 1)" using ilog2_bounds [OF x] by simp_all
  have "(2::real) powi (emin + int p - 1) < 2 powi (ilog2 x + 1)" using xk b(2) by linarith
  then have "emin + int p - 1 < ilog2 x + 1" by (rule powi2_less_imp)
  then have e: "fp_expt p emin x = ilog2 x - int p + 1" using x by (simp add: fp_expt_def)
  have "\<bar>fp_near p emin x - x\<bar> \<le> 2 powi (fp_expt p emin x) / 2" by (rule fp_near_err)
  also have "2 powi (fp_expt p emin x) / 2 = 2 powi (- int p) * (2::real) powi (ilog2 x)"
  proof -
    have "ilog2 x - int p + 1 = (- int p) + (ilog2 x + 1)" by simp
    then have "(2::real) powi (ilog2 x - int p + 1) = 2 powi (- int p) * 2 powi (ilog2 x + 1)"
      by (simp only: power_int_add [of "2::real", simplified])
    then show ?thesis unfolding e by (simp add: power_int_add)
  qed
  also have "\<dots> \<le> 2 powi (- int p) * x"
    using b(1) by (intro mult_left_mono) simp_all
  finally show ?thesis .
qed

lemma f32_zero: "f32 0 = Fin 0"
  by (simp add: f32_def fp_round_zero)

lemma f32_idem: "f32 x = Fin y \<Longrightarrow> f32 y = Fin y"
  unfolding f32_def by (rule fp_round_idem) simp

lemma f32_Fin_bounded:
  assumes "\<bar>x\<bar> \<le> 2 powi 127"
  shows "f32 x = Fin (fp_near 24 (- 149) x)"
proof -
  have "\<bar>fp_near 24 (- 149) x\<bar> \<le> 2 powi 127"
    using assms by (intro fp_near_abs_le_pow) simp_all
  moreover have "(2::real) powi 127 < 2 powi 128" by (rule powi2_strict_mono) simp
  ultimately show ?thesis by (simp add: f32_def fp_round_def)
qed
lemmas fp_eval = f32_def f64_def fp_round_def fp_near_def fp_expt_def ilog2.simps rne_def
  f32_of_u32_def f32_of_u64_def f32_of_int_def f32_gt_def signed_inf_def

lemma f32_one: "f32 1 = Fin 1"
  by (simp add: fp_eval)

lemma f64_zero: "f64 0 = Fin 0"
  by (simp add: f64_def fp_round_zero)

lemma real_unat_u64: "0 \<le> real (unat (v :: 64 word)) \<and> real (unat v) < 2 ^ 64"
proof -
  have "unat v < 2 ^ 64" using unsigned_less [of v, where ?'a = nat] by simp
  then have "real (unat v) < real (2 ^ 64)" by (simp only: of_nat_less_iff)
  moreover have "real (2 ^ 64) = 2 ^ 64" by simp
  moreover have "0 \<le> real (unat v)" by (rule of_nat_0_le_iff)
  ultimately show ?thesis by linarith
qed

lemma real_unat_u32: "0 \<le> real (unat (c :: 32 word)) \<and> real (unat c) < 2 ^ 32"
proof -
  have "unat c < 2 ^ 32" using unsigned_less [of c, where ?'a = nat] by simp
  then have "real (unat c) < real (2 ^ 32)" by (simp only: of_nat_less_iff)
  moreover have "real (2 ^ 32) = 2 ^ 32" by simp
  moreover have "0 \<le> real (unat c)" by (rule of_nat_0_le_iff)
  ultimately show ?thesis by linarith
qed

lemma f32_of_u64_Fin: "f32_of_u64 v = Fin (fp_near 24 (- 149) (real (unat v)))"
proof -
  have "(2::real) ^ 64 \<le> 2 powi 127" by simp
  then have "\<bar>real (unat v)\<bar> \<le> 2 powi 127" using real_unat_u64 [of v] by linarith
  then show ?thesis unfolding f32_of_u64_def by (rule f32_Fin_bounded)
qed

lemma f32_of_u32_Fin: "f32_of_u32 c = Fin (fp_near 24 (- 149) (real (unat c)))"
proof -
  have "(2::real) ^ 32 \<le> 2 powi 127" by simp
  then have "\<bar>real (unat c)\<bar> \<le> 2 powi 127" using real_unat_u32 [of c] by linarith
  then show ?thesis unfolding f32_of_u32_def by (rule f32_Fin_bounded)
qed

lemma push_init:
  "bench_stats_push bench_stats_init v
     = \<lparr>count = 1, total = v, mean = f32_of_u64 v, d_squared = Fin 0\<rparr>"
proof -
  obtain y where y: "f32_of_u64 v = Fin y" using f32_of_u64_Fin by blast
  then have iy: "f32 y = Fin y" unfolding f32_of_u64_def by (rule f32_idem)
  have one: "f32_of_u32 1 = Fin 1" by (simp add: f32_of_u32_def f32_one)
  show ?thesis
    unfolding bench_stats_push_def bench_stats_init_def Let_def
    by (simp add: y iy one f32_zero)
qed

lemma fp_near_int_exact:
  assumes p: "0 < p" and emin: "emin \<le> 0" and m: "0 \<le> m" "m \<le> 2 ^ p"
  shows "fp_near p emin (of_int m) = of_int m"
proof (cases "m = 0")
  case True
  then show ?thesis by (simp add: fp_near_zero)
next
  case False
  with m have mpos: "0 < m" by simp
  define x :: real where "x = of_int m"
  have xpos: "0 < x" using mpos by (simp add: x_def)
  have ax: "\<bar>x\<bar> = x" using xpos by simp
  have b: "2 powi (ilog2 x) \<le> x" using ilog2_bounds [OF xpos] by simp
  show ?thesis
  proof (cases "m = 2 ^ p")
    case True
    then have x2: "x = 2 powi (int p)" by (simp add: x_def)
    have "(2::real) powi (int p) < 2 powi (int p + 1)" by (rule powi2_strict_mono) simp
    then have "ilog2 x = int p" unfolding x2 by (intro ilog2_unique) simp_all
    then have ex: "fp_expt p emin x = 1" using emin by (simp add: fp_expt_def ax)
    have "(2::real) ^ p = 2 ^ (p - 1) * 2" using p by (cases p) simp_all
    then have "x = of_int (2 ^ (p - 1)) * 2 powi 1" unfolding x2 by simp
    then have "fp_near p emin x = x" by (rule fp_near_exact) (simp add: ex)
    then show ?thesis by (simp add: x_def)
  next
    case F: False
    with m have "m < 2 ^ p" by simp
    then have "x < of_int (2 ^ p)" unfolding x_def by (simp only: of_int_less_iff)
    then have "x < 2 powi (int p)" by simp
    then have "(2::real) powi (ilog2 x) < 2 powi (int p)" using b by linarith
    then have "ilog2 x < int p" by (rule powi2_less_imp)
    then have ex: "fp_expt p emin x \<le> 0" using emin by (simp add: fp_expt_def ax)
    have "x = of_int m * 2 powi 0" by (simp add: x_def)
    then have "fp_near p emin x = x" using ex by (rule fp_near_exact)
    then show ?thesis by (simp add: x_def)
  qed
qed

lemma f32_of_u64_exact:
  assumes "unat v \<le> 2 ^ 24"
  shows "f32_of_u64 v = Fin (real (unat v))"
proof -
  define m where "m = int (unat v)"
  have r: "real (unat v) = of_int m" unfolding m_def by (simp only: of_int_of_nat_eq)
  have "int (unat v) \<le> int (2 ^ 24)" using assms by (simp only: of_nat_le_iff)
  then have "m \<le> 2 ^ 24" unfolding m_def by simp
  moreover have "0 \<le> m" unfolding m_def by (rule of_nat_0_le_iff)
  ultimately have "fp_near 24 (- 149) (of_int m) = of_int m"
    by (intro fp_near_int_exact) simp_all
  then show ?thesis unfolding f32_of_u64_Fin r by (simp only:)
qed

lemma f32_of_u64_rel_err:
  "\<bar>fp_near 24 (- 149) (real (unat v)) - real (unat v)\<bar> \<le> 2 powi (- 24) * real (unat v)"
proof (cases "unat v = 0")
  case True
  then show ?thesis by (simp add: fp_near_zero)
next
  case False
  then have "1 \<le> unat v" by simp
  then have "real 1 \<le> real (unat v)" by (simp only: of_nat_le_iff)
  then have one: "1 \<le> real (unat v)" by (simp only: of_nat_1)
  have "(2::real) powi (- 149 + int 24 - 1) \<le> 1" by simp
  then have "2 powi (- 149 + int 24 - 1) \<le> real (unat v)" using one by linarith
  moreover have "0 < real (unat v)" using one by linarith
  ultimately have "\<bar>fp_near 24 (- 149) (real (unat v)) - real (unat v)\<bar>
      \<le> 2 powi (- int 24) * real (unat v)"
    by (intro fp_near_pos_rel_err)
  then show ?thesis by simp
qed

section \<open>Properties of the sampling loop\<close>

lemma count_push: "count (bench_stats_push st v) = count st + 1"
  by (simp add: bench_stats_push_def Let_def)

lemma total_push: "total (bench_stats_push st v) = total st + v"
  by (simp add: bench_stats_push_def Let_def)

lemma pushes_Nil: "pushes st [] = st"
  by (simp add: pushes_def)

lemma pushes_Cons: "pushes st (v # vs) = pushes (bench_stats_push st v) vs"
  by (simp add: pushes_def)

lemma count_pushes: "count (pushes st vs) = count st + of_nat (length vs)"
  by (induction vs arbitrary: st) (simp_all add: pushes_Nil pushes_Cons count_push)

lemma sample_loop_done: "\<not> total st < target \<Longrightarrow> sample_loop target st clk = Inr (st, clk)"
  by (subst sample_loop.simps) simp

lemma sample_loop_step:
  "total st < target \<Longrightarrow>
     sample_loop target st (s # e # rest) = sample_loop target (bench_stats_push st (e - s)) rest"
  by (subst sample_loop.simps) simp

lemma length_durations: "2 * n \<le> length clk \<Longrightarrow> n \<le> length (durations clk)"
proof (induction n arbitrary: clk)
  case 0
  then show ?case by simp
next
  case (Suc n)
  then obtain s e rest where clk: "clk = s # e # rest"
    by (cases clk; cases "tl clk") auto
  with Suc.prems have "2 * n \<le> length rest" by simp
  then have "n \<le> length (durations rest)" by (rule Suc.IH)
  with clk show ?case by simp
qed

text \<open>
  What a completed run of the loop did: it ran \<open>n\<close> iterations, consumed \<open>2 * n\<close> readings,
  pushed the first \<open>n\<close> durations, found the total below the target before each of them and
  not below it at the end.
\<close>

lemma sample_loop_result:
  assumes "sample_loop target st clk = Inr (st', clk')"
  shows "\<exists>n. 2 * n \<le> length clk \<and> clk' = drop (2 * n) clk
           \<and> st' = pushes st (take n (durations clk))
           \<and> (\<forall>j<n. total (pushes st (take j (durations clk))) < target)
           \<and> \<not> total st' < target"
  using assms
proof (induction target st clk rule: sample_loop.induct)
  case (1 target st clk)
  show ?case
  proof (cases "total st < target")
    case True
    with 1(2) obtain s e rest where clk: "clk = s # e # rest"
      by (subst (asm) sample_loop.simps) (auto split: list.splits)
    with 1(2) True have "sample_loop target (bench_stats_push st (e - s)) rest = Inr (st', clk')"
      by (simp add: sample_loop_step)
    from 1(1) [OF True clk refl this] obtain n where n:
      "2 * n \<le> length rest" "clk' = drop (2 * n) rest"
      "st' = pushes (bench_stats_push st (e - s)) (take n (durations rest))"
      "\<forall>j<n. total (pushes (bench_stats_push st (e - s)) (take j (durations rest))) < target"
      "\<not> total st' < target"
      by blast
    have all: "\<forall>j<Suc n. total (pushes st (take j (durations clk))) < target"
    proof (intro allI impI)
      fix j assume "j < Suc n"
      show "total (pushes st (take j (durations clk))) < target"
      proof (cases j)
        case 0
        then show ?thesis using True by (simp add: pushes_Nil)
      next
        case (Suc i)
        with \<open>j < Suc n\<close> have "i < n" by simp
        with n(4) Suc clk show ?thesis by (simp add: pushes_Cons)
      qed
    qed
    show ?thesis
      by (rule exI [of _ "Suc n"]) (use n all clk in \<open>simp add: pushes_Cons\<close>)
  next
    case False
    with 1(2) have "st' = st" "clk' = clk" by (simp_all add: sample_loop_done)
    then show ?thesis using False by (intro exI [of _ 0]) (simp add: pushes_Nil)
  qed
qed

lemma sample_loop_first:
  assumes "0 < target" "target \<le> e - s"
  shows "sample_loop target bench_stats_init (s # e # clk)
           = Inr (bench_stats_push bench_stats_init (e - s), clk)"
proof -
  have t0: "total bench_stats_init < target" using assms(1) by (simp add: bench_stats_init_def)
  have t1: "\<not> total (bench_stats_push bench_stats_init (e - s)) < target"
    using assms(2) by (simp add: total_push bench_stats_init_def)
  show ?thesis by (simp add: sample_loop_step [OF t0] sample_loop_done [OF t1])
qed

lemma f32_of_u32_ge_one:
  assumes "c \<noteq> 0"
  shows "\<exists>y. f32_of_u32 c = Fin y \<and> 1 \<le> y"
proof -
  have "unat c \<noteq> 0" using assms by (simp add: unat_eq_0)
  then have "1 \<le> unat c" by simp
  then have "real 1 \<le> real (unat c)" by (simp only: of_nat_le_iff)
  then have one: "1 \<le> real (unat c)" by (simp only: of_nat_1)
  then have "2 powi 0 \<le> real (unat c)" by simp
  moreover have "0 < real (unat c)" using one by linarith
  ultimately have "2 powi 0 \<le> fp_near 24 (- 149) (real (unat c))"
    by (intro fp_near_pos_ge_pow) simp_all
  then show ?thesis by (simp add: f32_of_u32_Fin)
qed

lemma f32_of_u64_ge_one:
  assumes "t \<noteq> 0"
  shows "\<exists>y. f32_of_u64 t = Fin y \<and> 1 \<le> y"
proof -
  have "unat t \<noteq> 0" using assms by (simp add: unat_eq_0)
  then have "1 \<le> unat t" by simp
  then have "real 1 \<le> real (unat t)" by (simp only: of_nat_le_iff)
  then have one: "1 \<le> real (unat t)" by (simp only: of_nat_1)
  then have "2 powi 0 \<le> real (unat t)" by simp
  moreover have "0 < real (unat t)" using one by linarith
  ultimately have "2 powi 0 \<le> fp_near 24 (- 149) (real (unat t))"
    by (intro fp_near_pos_ge_pow) simp_all
  then show ?thesis by (simp add: f32_of_u64_Fin)
qed

text \<open>A push of a zero duration onto statistics with mean 0 and no spread only counts.\<close>

lemma push_zero:
  assumes "count st + 1 \<noteq> 0" "mean st = Fin 0" "d_squared st = Fin 0"
  shows "bench_stats_push st 0 = st\<lparr>count := count st + 1\<rparr>"
proof -
  obtain y where y: "f32_of_u32 (count st + 1) = Fin y" "1 \<le> y"
    using f32_of_u32_ge_one [OF assms(1)] by blast
  then have y0: "y \<noteq> 0" by simp
  have z: "f32_of_u64 0 = Fin 0" by (simp add: f32_of_u64_def f32_zero)
  show ?thesis
    unfolding bench_stats_push_def Let_def
    by (simp add: assms(2,3) z y(1) y0 f32_zero)
qed

lemma sample_loop_zero_durations:
  assumes "unat (count st) + k < 2 ^ 32" "total st < target"
    "mean st = Fin 0" "d_squared st = Fin 0"
  shows "sample_loop target st (replicate (2 * k) 0 @ rest)
           = sample_loop target (st\<lparr>count := count st + of_nat k\<rparr>) rest"
  using assms
proof (induction k arbitrary: st)
  case 0
  then show ?case by simp
next
  case (Suc k)
  have c1: "unat (count st + 1) = unat (count st) + 1"
    using Suc.prems(1) by (simp add: unat_word_ariths)
  then have nz: "count st + 1 \<noteq> 0" by (metis Suc_eq_plus1 nat.simps(3) unat_0)
  have p: "bench_stats_push st (0 - 0) = st\<lparr>count := count st + 1\<rparr>"
    using push_zero [OF nz Suc.prems(3,4)] by simp
  have "sample_loop target st (replicate (2 * Suc k) 0 @ rest)
          = sample_loop target st (0 # 0 # (replicate (2 * k) 0 @ rest))" by simp
  also have "\<dots> = sample_loop target (st\<lparr>count := count st + 1\<rparr>) (replicate (2 * k) 0 @ rest)"
    using p by (simp add: sample_loop_step [OF Suc.prems(2)])
  also have "\<dots> = sample_loop target (st\<lparr>count := count st + 1, count := count st + 1 + of_nat k\<rparr>) rest"
    using Suc.prems c1 by (subst Suc.IH) simp_all
  finally show ?case by (simp add: add.assoc)
qed

lemma loop_stats_nonzero:
  assumes "sample_loop target bench_stats_init clk = Inr (st, clk')"
    and "0 < target"
    and "length clk - length clk' < 2 * 2 ^ 32"
  shows "count st \<noteq> 0 \<and> target \<le> total st \<and> 0 < total st
       \<and> (\<exists>c. f32_of_u32 (count st) = Fin c \<and> 1 \<le> c)
       \<and> (\<exists>t. f32_of_u64 (total st) = Fin t \<and> 1 \<le> t)"
proof -
  from sample_loop_result [OF assms(1)] obtain n where n:
    "2 * n \<le> length clk" "clk' = drop (2 * n) clk"
    "st = pushes bench_stats_init (take n (durations clk))"
    "\<not> total st < target"
    by blast
  have tt: "target \<le> total st" using n(4) by simp
  with assms(2) have tpos: "0 < total st" by simp
  have "n \<noteq> 0"
  proof
    assume "n = 0"
    with n(3) have "st = bench_stats_init" by (simp add: pushes_Nil)
    with n(4) assms(2) show False by (simp add: bench_stats_init_def)
  qed
  have "length clk - length clk' = 2 * n" using n(1,2) by simp
  with assms(3) have nlt: "n < 2 ^ 32" by simp
  have "n \<le> length (durations clk)" using n(1) by (rule length_durations)
  then have "count st = of_nat n"
    unfolding n(3) by (simp add: count_pushes bench_stats_init_def min_def)
  then have "unat (count st) = n" using nlt by (simp add: unat_of_nat)
  with \<open>n \<noteq> 0\<close> have cnz: "count st \<noteq> 0" by auto
  have tnz: "total st \<noteq> 0" using tpos by simp
  show ?thesis
    using cnz tt tpos f32_of_u32_ge_one [OF cnz] f32_of_u64_ge_one [OF tnz] by blast
qed

lemma loop_total_reached:
  assumes "sample_loop target bench_stats_init clk = Inr (st, clk')" and "0 < target"
  shows "target \<le> total st \<and> 0 < total st \<and> (\<exists>t. f32_of_u64 (total st) = Fin t \<and> 1 \<le> t)"
proof -
  from sample_loop_result [OF assms(1)] have "\<not> total st < target" by blast
  then have tt: "target \<le> total st" by simp
  with assms(2) have tpos: "0 < total st" by simp
  then have tnz: "total st \<noteq> 0" by simp
  show ?thesis using tt tpos f32_of_u64_ge_one [OF tnz] by blast
qed

section \<open>Properties of the formatter\<close>

lemma scale_spec_le: "snd (scale_spec cap v) \<le> cap"
proof (induction cap arbitrary: v)
  case 0
  show ?case by simp
next
  case (Suc cap)
  obtain v' k where sc: "scale_spec cap (f32_div v (f32_of_int 1000)) = (v', k)"
    by (cases "scale_spec cap (f32_div v (f32_of_int 1000))")
  with Suc [of "f32_div v (f32_of_int 1000)"] have "k \<le> cap" by simp
  with sc show ?case by simp
qed

lemma human_loop_spec:
  "level \<le> cap \<Longrightarrow>
     human_loop cap number level =
       (case scale_spec (nat (cap - level)) number of
          (v', k) \<Rightarrow> (v', if int k = cap - level \<and> f32_ge v' (f32_of_int 1000)
                         then cap + 1 else level + int k))"
proof (induction cap number level rule: human_loop.induct)
  case (1 cap number level)
  show ?case
  proof (cases "f32_ge number (f32_of_int 1000)")
    case ge: True
    show ?thesis
    proof (cases "level + 1 \<le> cap")
      case True
      then have n: "nat (cap - level) = Suc (nat (cap - (level + 1)))" by simp
      obtain v' k where sc: "scale_spec (nat (cap - (level + 1))) (f32_div number (f32_of_int 1000)) = (v', k)"
        by (cases "scale_spec (nat (cap - (level + 1))) (f32_div number (f32_of_int 1000))")
      have "human_loop cap number level
              = human_loop cap (f32_div number (f32_of_int 1000)) (level + 1)"
        using ge True by (subst human_loop.simps) simp
      also have "\<dots> = (v', if int k = cap - (level + 1) \<and> f32_ge v' (f32_of_int 1000)
                               then cap + 1 else level + 1 + int k)"
        using 1(1) [OF ge True True] sc by simp
      finally show ?thesis unfolding n using ge sc by auto
    next
      case False
      with 1(2) have eq: "level = cap" by simp
      have "human_loop cap number level = (number, level + 1)"
        using ge False by (subst human_loop.simps) simp
      then show ?thesis using ge eq by simp
    qed
  next
    case False
    have "human_loop cap number level = (number, level)"
      using False by (subst human_loop.simps) simp
    moreover have "scale_spec (nat (cap - level)) number = (number, 0)"
      using False by (cases "nat (cap - level)") simp_all
    ultimately show ?thesis using False by simp
  qed
qed

lemma bench_human_number_spec:
  "bench_human_number f number time w = fprintf f (format_spec number time) w"
proof -
  obtain v' k where sc: "scale_spec (if time then 3 else 4) number = (v', k)"
    by (cases "scale_spec (if time then 3 else 4) number")
  have k: "k \<le> (if time then 3 else 4)" using scale_spec_le [of "if time then 3 else 4" number] sc by simp
  show ?thesis
  proof (cases time)
    case True
    with sc have sc3: "scale_spec 3 number = (v', k)" by simp
    have "human_loop 3 number 0
           = (v', if int k = 3 \<and> f32_ge v' (f32_of_int 1000) then 4 else int k)"
      using human_loop_spec [of 0 3 number] sc3 by simp
    moreover have "k = 0 \<or> k = 1 \<or> k = 2 \<or> k = 3" using k True by auto
    ultimately show ?thesis using True sc3
      by (auto simp: bench_human_number_def format_spec_def unit_suffix_def)
  next
    case False
    with sc have sc4: "scale_spec 4 number = (v', k)" by simp
    have "human_loop 4 number 0
           = (v', if int k = 4 \<and> f32_ge v' (f32_of_int 1000) then 5 else int k)"
      using human_loop_spec [of 0 4 number] sc4 by simp
    moreover have "k = 0 \<or> k = 1 \<or> k = 2 \<or> k = 3 \<or> k = 4" using k False by auto
    ultimately show ?thesis using False sc4
      by (auto simp: bench_human_number_def format_spec_def unit_suffix_def)
  qed
qed

lemma f32_of_int_1000: "f32_of_int 1000 = Fin 1000"
  by (simp add: fp_eval)

lemma human_999: "human_loop cap (Fin 999) 0 = (Fin 999, 0)"
  by (subst human_loop.simps) (simp add: f32_of_int_1000)

lemma human_1500: "human_loop 4 (Fin 1500) 0 = (Fin (3/2), 1)"
proof -
  have d: "f32 (3/2) = Fin (3/2)" by (simp add: fp_eval)
  have "human_loop 4 (Fin 1500) 0 = human_loop 4 (Fin (3/2)) 1"
    by (subst human_loop.simps) (simp add: f32_of_int_1000 d)
  also have "\<dots> = (Fin (3/2), 1)"
    by (subst human_loop.simps) (simp add: f32_of_int_1000)
  finally show ?thesis .
qed

lemma human_1500000: "human_loop 3 (Fin 1500000) 0 = (Fin (3/2), 2)"
proof -
  have d1: "f32 1500 = Fin 1500" by (simp add: fp_eval)
  have d2: "f32 (3/2) = Fin (3/2)" by (simp add: fp_eval)
  have "human_loop 3 (Fin 1500000) 0 = human_loop 3 (Fin 1500) 1"
    by (subst human_loop.simps) (simp add: f32_of_int_1000 d1)
  also have "\<dots> = human_loop 3 (Fin (3/2)) 2"
    by (subst human_loop.simps) (simp add: f32_of_int_1000 d2)
  also have "\<dots> = (Fin (3/2), 2)"
    by (subst human_loop.simps) (simp add: f32_of_int_1000)
  finally show ?thesis .
qed

lemma fmt_999: "fmt_2f (Fin 999) = ''999.00''"
  by (simp add: fmt_2f.simps rne_def Let_def dec_digits.simps)

lemma fmt_1_50: "fmt_2f (Fin (3/2)) = ''1.50''"
  by (simp add: fmt_2f.simps rne_def Let_def dec_digits.simps)

section \<open>The accuracy of the throughput\<close>

lemma abs_rel_bounds:
  fixes x y u :: real
  assumes "\<bar>y - x\<bar> \<le> u * x"
  shows "(1 - u) * x \<le> y \<and> y \<le> (1 + u) * x"
proof -
  have "y - x \<le> u * x" "- (y - x) \<le> u * x" using assms by (simp_all only: abs_le_iff)
  then show ?thesis by (simp add: algebra_simps)
qed

lemma f32_round_range:
  assumes "2 powi j \<le> x" "x \<le> 2 powi k" "- 126 \<le> j" "k \<le> 127"
  shows "\<exists>y. f32 x = Fin y \<and> (1 - 2 powi (- 24)) * x \<le> y \<and> y \<le> (1 + 2 powi (- 24)) * x
             \<and> 2 powi j \<le> y \<and> y \<le> 2 powi k"
proof -
  define y where "y = fp_near 24 (- 149) x"
  have "(0::real) < 2 powi j" by simp
  then have xpos: "0 < x" using assms(1) by linarith
  have "(2::real) powi k \<le> 2 powi 127" using assms(4) by (rule powi2_mono)
  then have "\<bar>x\<bar> \<le> 2 powi 127" using assms(2) xpos by linarith
  then have fin: "f32 x = Fin y" unfolding y_def by (rule f32_Fin_bounded)
  have "(2::real) powi (- 149 + int 24 - 1) \<le> 2 powi j" using assms(3) by (intro powi2_mono) simp
  then have "2 powi (- 149 + int 24 - 1) \<le> x" using assms(1) by linarith
  with xpos have "\<bar>fp_near 24 (- 149) x - x\<bar> \<le> 2 powi (- int 24) * x"
    by (rule fp_near_pos_rel_err)
  then have err: "\<bar>y - x\<bar> \<le> 2 powi (- 24) * x" by (simp only: y_def of_nat_numeral)
  have lo: "(1 - 2 powi (- 24)) * x \<le> y" and hi: "y \<le> (1 + 2 powi (- 24)) * x"
    using abs_rel_bounds [OF err] by blast+
  have ge: "2 powi j \<le> y" unfolding y_def
    using xpos assms(1,3) by (intro fp_near_pos_ge_pow) simp_all
  have "(2::real) powi j \<le> 2 powi k" using assms(1,2) by linarith
  then have "j \<le> k" by (rule powi2_le_imp)
  then have "- 149 \<le> k" using assms(3) by linarith
  then have le: "y \<le> 2 powi k" unfolding y_def
    using xpos assms(2) by (intro fp_near_pos_le_pow) simp_all
  show ?thesis using fin lo hi ge le by blast
qed
lemma rel_bounds_abs:
  fixes q E d :: real
  assumes "(1 - d) * E \<le> q" "q \<le> (1 + d) * E"
  shows "\<bar>q - E\<bar> \<le> d * E"
proof -
  have "E - d * E \<le> q" "q \<le> E + d * E" using assms by (simp_all add: algebra_simps)
  then have "q - E \<le> d * E" "- (q - E) \<le> d * E" by linarith+
  then show ?thesis by (simp only: abs_le_iff)
qed

lemma f32_times_1000_step:
  fixes a E lo hi u :: real
  assumes u: "u = 2 powi (- 24)"
    and a: "lo * E \<le> a" "a \<le> hi * E"
    and r: "2 powi (- 64) \<le> a" "a \<le> 2 powi k" "k + 10 \<le> 127"
  shows "\<exists>y. f32 (a * 1000) = Fin y \<and> (lo * (1 - u)) * (E * 1000) \<le> y
             \<and> y \<le> (hi * (1 + u)) * (E * 1000)
             \<and> 2 powi (- 64) \<le> y \<and> y \<le> 2 powi (k + 10)"
proof -
  have u01: "0 \<le> 1 - u" "0 \<le> 1 + u" by (simp_all add: u)
  have "(0::real) < 2 powi (- 64)" by simp
  then have apos: "0 < a" using r(1) by linarith
  have lo1: "2 powi (- 64) \<le> a * 1000" using r(1) apos by linarith
  have "a * 1000 \<le> 2 powi k * 1000" using r(2) by simp
  also have "\<dots> \<le> 2 powi k * 2 powi 10" by (intro mult_left_mono) simp_all
  also have "\<dots> = 2 powi (k + 10)" by (simp add: power_int_add)
  finally have hi1: "a * 1000 \<le> 2 powi (k + 10)" .
  from f32_round_range [OF lo1 hi1 _ r(3)] obtain y where y:
    "f32 (a * 1000) = Fin y" "(1 - 2 powi (- 24)) * (a * 1000) \<le> y"
    "y \<le> (1 + 2 powi (- 24)) * (a * 1000)" "2 powi (- 64) \<le> y" "y \<le> 2 powi (k + 10)"
    by auto
  have "(lo * (1 - u)) * (E * 1000) = (1 - u) * ((lo * E) * 1000)" by simp
  also have "\<dots> \<le> (1 - u) * (a * 1000)"
    using a(1) u01(1) by (intro mult_left_mono) simp_all
  also have "\<dots> \<le> y" using y(2) by (simp only: u)
  finally have l: "(lo * (1 - u)) * (E * 1000) \<le> y" .
  have "y \<le> (1 + u) * (a * 1000)" using y(3) by (simp only: u)
  also have "\<dots> \<le> (1 + u) * ((hi * E) * 1000)"
    using a(2) u01(2) by (intro mult_left_mono) simp_all
  also have "\<dots> = (hi * (1 + u)) * (E * 1000)" by simp
  finally have h: "y \<le> (hi * (1 + u)) * (E * 1000)" .
  show ?thesis using y(1,4,5) l h by blast
qed

lemma ops_per_sec_rel_err:
  assumes tnz: "total st \<noteq> 0"
  shows "\<exists>r. bench_stats_ops_per_sec st = Fin r
           \<and> \<bar>r - real (unat (count st)) / real (unat (total st)) * 1000000000\<bar>
               \<le> 2 powi (- 21) * (real (unat (count st)) / real (unat (total st)) * 1000000000)"
proof -
  define c where "c = real (unat (count st))"
  define t where "t = real (unat (total st))"
  define u :: real where "u = 2 powi (- 24)"
  have u01: "0 < 1 - u" "0 < 1 + u" by (simp_all add: u_def)
  have i1: "f32_of_int 1 = Fin 1" by (simp add: f32_of_int_def f32_one)
  have i1000: "f32_of_int 1000 = Fin 1000" by (rule f32_of_int_1000)
  have "unat (total st) \<noteq> 0" using tnz by (simp add: unat_eq_0)
  then have "1 \<le> unat (total st)" by simp
  then have "real 1 \<le> real (unat (total st))" by (simp only: of_nat_le_iff)
  then have t1: "1 \<le> t" unfolding t_def by (simp only: of_nat_1)
  have t64: "t \<le> 2 powi 64" using real_unat_u64 [of "total st"] by (simp add: t_def)
  have c0: "0 \<le> c" and c32: "c \<le> 2 powi 32"
    using real_unat_u32 [of "count st"] by (simp_all add: c_def)
  have "2 powi 0 \<le> t" using t1 by simp
  from f32_round_range [OF this t64] obtain t' where t':
    "f32 t = Fin t'" "(1 - u) * t \<le> t'" "t' \<le> (1 + u) * t" "1 \<le> t'" "t' \<le> 2 powi 64"
    unfolding u_def by auto
  have ft: "f32_of_u64 (total st) = Fin t'" using t'(1) by (simp only: f32_of_u64_def t_def)
  have t'pos: "0 < t'" using t'(4) by linarith
  show ?thesis
  proof (cases "count st = 0")
    case True
    then have cz: "c = 0" by (simp add: c_def)
    have fc: "f32_of_u32 (count st) = Fin 0" using True by (simp add: f32_of_u32_def f32_zero)
    have "bench_stats_ops_per_sec st = Fin 0"
      unfolding bench_stats_ops_per_sec_def fc ft i1 i1000 using t'pos by (simp add: f32_zero)
    then show ?thesis using True by simp
  next
    case False
    then have "unat (count st) \<noteq> 0" by (simp add: unat_eq_0)
    then have "1 \<le> unat (count st)" by simp
    then have "real 1 \<le> real (unat (count st))" by (simp only: of_nat_le_iff)
    then have c1: "1 \<le> c" unfolding c_def by (simp only: of_nat_1)
    then have "2 powi 0 \<le> c" by simp
    from f32_round_range [OF this c32] obtain c' where c':
      "f32 c = Fin c'" "(1 - u) * c \<le> c'" "c' \<le> (1 + u) * c" "1 \<le> c'" "c' \<le> 2 powi 32"
      unfolding u_def by auto
    have fc: "f32_of_u32 (count st) = Fin c'" using c'(1) by (simp only: f32_of_u32_def c_def)
    define R where "R = c / t"
    have R0: "0 \<le> R" using c0 t1 by (simp add: R_def)
    define q0 where "q0 = c' / t'"
    have tpos: "0 < t" using t1 by linarith
    have q0hi: "q0 \<le> ((1 + u) / (1 - u)) * R"
    proof -
      have "0 < (1 - u) * t" using u01(1) tpos by simp
      then have "c' / t' \<le> ((1 + u) * c) / ((1 - u) * t)"
        using c'(3,4) t'(2) by (intro frac_le) simp_all
      then show ?thesis by (simp add: q0_def R_def)
    qed
    have q0lo: "((1 - u) / (1 + u)) * R \<le> q0"
    proof -
      have "0 \<le> (1 - u) * c" using u01(1) c0 by simp
      then have "((1 - u) * c) / ((1 + u) * t) \<le> c' / t'"
        using c'(2) t'(3) t'pos by (intro frac_le) simp_all
      then show ?thesis by (simp add: q0_def R_def)
    qed
    have q0ge: "2 powi (- 64) \<le> q0"
    proof -
      have "1 / 2 powi 64 \<le> c' / t'" using c'(4) t'(5) t'pos by (intro frac_le) simp_all
      then show ?thesis by (simp add: q0_def power_int_minus_divide)
    qed
    have q0le: "q0 \<le> 2 powi 32"
    proof -
      have "c' / t' \<le> c' / 1" using c'(4) t'(4) by (intro frac_le) simp_all
      then show ?thesis using c'(5) by (simp add: q0_def)
    qed
    from f32_round_range [OF q0ge q0le] obtain q1 where q1:
      "f32 q0 = Fin q1" "(1 - u) * q0 \<le> q1" "q1 \<le> (1 + u) * q0"
      "2 powi (- 64) \<le> q1" "q1 \<le> 2 powi 32"
      unfolding u_def by auto
    have q1lo: "(((1 - u) / (1 + u)) * (1 - u)) * R \<le> q1"
    proof -
      have "(1 - u) * (((1 - u) / (1 + u)) * R) \<le> (1 - u) * q0"
        using q0lo u01(1) by (intro mult_left_mono) simp_all
      then show ?thesis using q1(2) by (simp add: mult.assoc mult.left_commute)
    qed
    have q1hi: "q1 \<le> (((1 + u) / (1 - u)) * (1 + u)) * R"
    proof -
      have "(1 + u) * q0 \<le> (1 + u) * (((1 + u) / (1 - u)) * R)"
        using q0hi u01(2) by (intro mult_left_mono) simp_all
      then show ?thesis using q1(3) by (simp add: mult.assoc mult.left_commute)
    qed
    have id1: "f32 (q1 * 1) = Fin q1" using f32_idem [OF q1(1)] by simp
    from f32_times_1000_step [OF u_def q1lo q1hi q1(4,5)] obtain q2 where q2:
      "f32 (q1 * 1000) = Fin q2"
      "(((1 - u) / (1 + u)) * (1 - u)) * (1 - u) * (R * 1000) \<le> q2"
      "q2 \<le> (((1 + u) / (1 - u)) * (1 + u)) * (1 + u) * (R * 1000)"
      "2 powi (- 64) \<le> q2" "q2 \<le> 2 powi (32 + 10)"
      by auto
    from f32_times_1000_step [OF u_def q2(2,3,4,5)] obtain q3 where q3:
      "f32 (q2 * 1000) = Fin q3"
      "(((1 - u) / (1 + u)) * (1 - u)) * (1 - u) * (1 - u) * (R * 1000 * 1000) \<le> q3"
      "q3 \<le> (((1 + u) / (1 - u)) * (1 + u)) * (1 + u) * (1 + u) * (R * 1000 * 1000)"
      "2 powi (- 64) \<le> q3" "q3 \<le> 2 powi (32 + 10 + 10)"
      by auto
    from f32_times_1000_step [OF u_def q3(2,3,4,5)] obtain q4 where q4:
      "f32 (q3 * 1000) = Fin q4"
      "(((1 - u) / (1 + u)) * (1 - u)) * (1 - u) * (1 - u) * (1 - u) * (R * 1000 * 1000 * 1000) \<le> q4"
      "q4 \<le> (((1 + u) / (1 - u)) * (1 + u)) * (1 + u) * (1 + u) * (1 + u) * (R * 1000 * 1000 * 1000)"
      by auto
    have res: "bench_stats_ops_per_sec st = Fin q4"
      unfolding bench_stats_ops_per_sec_def fc ft i1 i1000
      using t'pos by (simp add: q0_def [symmetric] q1(1) id1 [simplified] q2(1) q3(1) q4(1))
    define E where "E = R * 1000 * 1000 * 1000"
    have E0: "0 \<le> E" using R0 by (simp add: E_def)
    have nlo: "1 - 2 powi (- 21) \<le> (((1 - u) / (1 + u)) * (1 - u)) * (1 - u) * (1 - u) * (1 - u)"
      by (simp add: u_def)
    have nhi: "(((1 + u) / (1 - u)) * (1 + u)) * (1 + u) * (1 + u) * (1 + u) \<le> 1 + 2 powi (- 21)"
      by (simp add: u_def)
    have "(1 - 2 powi (- 21)) * E \<le> q4"
      using mult_right_mono [OF nlo E0] q4(2) unfolding E_def by linarith
    moreover have "q4 \<le> (1 + 2 powi (- 21)) * E"
      using mult_right_mono [OF nhi E0] q4(3) unfolding E_def by linarith
    ultimately have "\<bar>q4 - E\<bar> \<le> 2 powi (- 21) * E"
      by (rule rel_bounds_abs)
    moreover have "E = c / t * 1000000000" by (simp add: E_def R_def)
    ultimately show ?thesis using res unfolding c_def t_def by blast
  qed
qed

section \<open>What a measurement writes\<close>

lemma fprintf_files: "files (fprintf f s w) g = (if g = f then files w f @ s else files w g)"
  by (simp add: fprintf_def)

lemma fprintf_clock: "clock (fprintf f s w) = clock w"
  by (simp add: fprintf_def)

lemma fprintf_allocs: "allocs (fprintf f s w) = allocs w"
  by (simp add: fprintf_def)

lemma fprintf_fprintf: "fprintf f s2 (fprintf f s1 w) = fprintf f (s1 @ s2) w"
  by (simp add: fprintf_def)

lemma alloc_files: "files (snd (alloc w)) = files w"
  by (simp add: alloc_def split: list.splits)

lemma alloc_clock: "clock (snd (alloc w)) = clock w"
  by (simp add: alloc_def split: list.splits)

lemma resize_world:
  "bench_array_resize a cap w = (ok, a', w') \<Longrightarrow> files w' = files w \<and> clock w' = clock w"
  by (auto simp: bench_array_resize_def alloc_def split: if_splits list.splits prod.splits)

lemma push_world:
  "bench_array_push a p w = Inr (ok, a', w') \<Longrightarrow> files w' = files w \<and> clock w' = clock w"
  unfolding bench_array_push_def
  by (auto simp: Let_def split: if_splits prod.splits option.splits dest: resize_world)

text \<open>The text that \<^verbatim>\<open>bench_stats_print\<close> writes.\<close>

lemma bench_stats_print_text:
  "bench_stats_print st f w =
     fprintf f (format_spec (bench_stats_ops_per_sec st) False @ '' i/s (''
                @ [CHR 0xC2, CHR 0xB1] @ fmt_2f (bench_stats_stddev st) @ ''%) (''
                @ format_spec (mean st) True @ ''/i)'') w"
  by (simp add: bench_stats_print_def Let_def bench_human_number_spec fprintf_fprintf)

lemma bench_measure_result:
  assumes "bench_measure b nm w = Inr (r, b', w')"
  shows "r = 0
       \<and> (\<exists>st. sample_loop (target_time b) bench_stats_init (tl (clock w)) = Inr (st, clock w')
              \<and> files w' (out b) =
                  files w (out b) @ replicate (nat (indent b)) CHR '' '' @ nm @ '' - ''
                  @ format_spec (bench_stats_ops_per_sec st) False @ '' i/s (''
                  @ [CHR 0xC2, CHR 0xB1] @ fmt_2f (bench_stats_stddev st) @ ''%) (''
                  @ format_spec (mean st) True @ ''/i)'' @ ''\<newline>'')"
proof -
  define w1 where "w1 = fprintf (out b) (nm @ '' - '') (bench_print_indent b w)"
  have w1: "files w1 (out b) = files w (out b) @ replicate (nat (indent b)) CHR '' '' @ nm @ '' - ''"
    "clock w1 = clock w"
    by (simp_all add: w1_def bench_print_indent_def fprintf_files fprintf_clock)
  obtain ok_m w2 where a1: "alloc w1 = (ok_m, w2)" by (cases "alloc w1")
  have w2: "files w2 = files w1" "clock w2 = clock w1"
    using alloc_files [of w1] alloc_clock [of w1] a1 by simp_all
  obtain ok_n w3 where a2: "alloc w2 = (ok_n, w3)" by (cases "alloc w2")
  have w3: "files w3 = files w2" "clock w3 = clock w2"
    using alloc_files [of w2] alloc_clock [of w2] a2 by simp_all
  define m where "m = \<lparr>mname = (if ok_n then Some nm else None), stats = bench_stats_init\<rparr>"
  from assms have okm: "ok_m"
    by (auto simp: bench_measure_def Let_def w1_def [symmetric] a1 split: if_splits)
  from assms okm obtain pushed arr w4 where p: "bench_array_push (measurements b) m w3 = Inr (pushed, arr, w4)"
    by (auto simp: bench_measure_def Let_def w1_def [symmetric] a1 a2 m_def [symmetric]
             split: sum.splits)
  have w4: "files w4 = files w3" "clock w4 = clock w3" using push_world [OF p] by simp_all
  from assms okm p obtain start w5 where n: "bench_now w4 = Inr (start, w5)"
    by (auto simp: bench_measure_def Let_def w1_def [symmetric] a1 a2 m_def [symmetric]
             split: sum.splits)
  then have w5: "files w5 = files w4" "clock w5 = tl (clock w4)"
    by (auto simp: bench_now_def split: list.splits)
  from assms okm p n obtain st clk where l: "sample_loop (target_time b) (stats m) (clock w5) = Inr (st, clk)"
    by (auto simp: bench_measure_def Let_def w1_def [symmetric] a1 a2 m_def [symmetric]
             split: sum.splits)
  from assms okm p n l have res: "r = 0"
    "w' = fprintf (out b) ''\<newline>'' (bench_stats_print st (out b) (w5\<lparr>clock := clk\<rparr>))"
    by (auto simp: bench_measure_def Let_def w1_def [symmetric] a1 a2 m_def [symmetric])
  have f5: "files (w5\<lparr>clock := clk\<rparr>) (out b)
      = files w (out b) @ replicate (nat (indent b)) CHR '' '' @ nm @ '' - ''"
    using w1 w2 w3 w4 w5 by simp
  have "clock w' = clk" unfolding res(2) by (simp add: bench_stats_print_text fprintf_clock)
  moreover have "clock w5 = tl (clock w)" using w1 w2 w3 w4 w5 by simp
  moreover have "stats m = bench_stats_init" by (simp add: m_def)
  ultimately have loop: "sample_loop (target_time b) bench_stats_init (tl (clock w)) = Inr (st, clock w')"
    using l by simp
  have "files w' (out b) = files (w5\<lparr>clock := clk\<rparr>) (out b)
      @ (format_spec (bench_stats_ops_per_sec st) False @ '' i/s (''
                @ [CHR 0xC2, CHR 0xB1] @ fmt_2f (bench_stats_stddev st) @ ''%) (''
                @ format_spec (mean st) True @ ''/i)'') @ ''\<newline>''"
    unfolding res(2) bench_stats_print_text by (simp add: fprintf_files)
  then show ?thesis using res(1) loop f5 by auto
qed

section \<open>A measurement of two calls, evaluated\<close>

lemma push_first_sample:
  "bench_stats_push bench_stats_init 499999744
     = \<lparr>count = 1, total = 499999744, mean = Fin 499999744, d_squared = Fin 0\<rparr>"
  unfolding bench_stats_push_def bench_stats_init_def Let_def by (simp add: fp_eval)

lemma push_second_sample:
  "bench_stats_push \<lparr>count = 1, total = 499999744, mean = Fin 499999744, d_squared = Fin 0\<rparr>
       500000256
     = \<lparr>count = 2, total = 1000000000, mean = Fin 500000000, d_squared = Fin 131072\<rparr>"
  unfolding bench_stats_push_def Let_def by (simp add: fp_eval)

lemma two_samples_loop:
  "sample_loop SECONDS bench_stats_init [0, 499999744, 499999744, 1000000000]
     = Inr (\<lparr>count = 2, total = 1000000000, mean = Fin 500000000, d_squared = Fin 131072\<rparr>, [])"
proof -
  have t0: "total bench_stats_init < SECONDS" by (simp add: bench_stats_init_def SECONDS_def)
  have t1: "total \<lparr>count = 1, total = 499999744, mean = Fin 499999744, d_squared = Fin 0\<rparr>
              < SECONDS" by (simp add: SECONDS_def)
  have t2: "\<not> total \<lparr>count = 2, total = 1000000000, mean = Fin 500000000,
                         d_squared = Fin 131072\<rparr> < SECONDS" by (simp add: SECONDS_def)
  have d1: "(499999744 :: 64 word) - 0 = 499999744" by simp
  have d2: "(1000000000 :: 64 word) - 499999744 = 500000256" by simp
  show ?thesis
    by (simp only: sample_loop_step [OF t0] d1 push_first_sample
          sample_loop_step [OF t1] d2 push_second_sample sample_loop_done [OF t2])
qed

lemma two_samples_ops:
  "bench_stats_ops_per_sec
     \<lparr>count = 2, total = 1000000000, mean = Fin 500000000, d_squared = Fin 131072\<rparr> = Fin 2"
  by (simp add: bench_stats_ops_per_sec_def fp_eval)

lemma two_samples_stddev:
  "bench_stats_stddev
     \<lparr>count = 2, total = 1000000000, mean = Fin 500000000, d_squared = Fin 131072\<rparr> = Fin 256"
proof -
  have v: "bench_stats_variance
     \<lparr>count = 2, total = 1000000000, mean = Fin 500000000, d_squared = Fin 131072\<rparr> = Fin 65536"
    by (simp add: bench_stats_variance_def fp_eval)
  have "sqrt 65536 = sqrt (256 ^ 2)" by simp
  also have "\<dots> = 256" by (simp only: real_sqrt_abs abs_numeral)
  finally have s: "sqrt 65536 = 256" .
  have f: "f64 256 = Fin 256" by (simp add: fp_eval)
  have g: "f32 256 = Fin 256" by (simp add: fp_eval)
  show ?thesis by (simp add: bench_stats_stddev_def v s f g)
qed

lemma scale_small: "f32_ge v (Fin 1000) = False \<Longrightarrow> scale_spec (Suc cap) v = (v, 0)"
  by (simp add: f32_of_int_1000)

lemma fmt_2: "format_spec (Fin 2) False = ''2.00''"
proof -
  have e4: "(4::nat) = Suc 3" by simp
  have "scale_spec 4 (Fin 2) = (Fin 2, 0)" unfolding e4 by (rule scale_small) simp
  moreover have "fmt_2f (Fin 2) = ''2.00''"
    by (simp add: fmt_2f.simps rne_def Let_def dec_digits.simps)
  ultimately show ?thesis by (simp add: format_spec_def unit_suffix_def)
qed

lemma fmt_256: "fmt_2f (Fin 256) = ''256.00''"
  by (simp add: fmt_2f.simps rne_def Let_def dec_digits.simps)

lemma fmt_500ms: "format_spec (Fin 500000000) True = ''500.00ms''"
proof -
  have d1: "f32 500000 = Fin 500000" by (simp add: fp_eval)
  have d2: "f32 500 = Fin 500" by (simp add: fp_eval)
  have "scale_spec 3 (Fin 500000000) = (Fin 500, 2)"
    by (simp add: numeral_3_eq_3 f32_of_int_1000 d1 d2)
  moreover have "fmt_2f (Fin 500) = ''500.00''"
    by (simp add: fmt_2f.simps rne_def Let_def dec_digits.simps)
  ultimately show ?thesis by (simp add: format_spec_def unit_suffix_def)
qed
lemma create_bench:
  "bench_create ''bench'' 1 0 0
     \<lparr>files = (\<lambda>_. []), clock = [0, 0, 499999744, 499999744, 1000000000], allocs = []\<rparr>
   = Inr (Some \<lparr>name = Some ''bench'', out = 1, indent = 0, data = 0, target_time = SECONDS,
                 measurements = \<lparr>capacity = 16, entries = Some []\<rparr>\<rparr>,
          \<lparr>files = (\<lambda>_. [])(1 := ''benc.h v1.0.0\<newline># bench\<newline>''),
           clock = [0, 0, 499999744, 499999744, 1000000000], allocs = []\<rparr>)"
  by (simp add: bench_create_def alloc_def bench_array_init_def bench_array_resize_def
        size_n_def bench_print_indent_def fprintf_def Let_def)

lemma measure_fib:
  "bench_measure \<lparr>name = Some ''bench'', out = 1, indent = 0, data = 0, target_time = SECONDS,
                  measurements = \<lparr>capacity = 16, entries = Some []\<rparr>\<rparr> ''fib''
     \<lparr>files = (\<lambda>_. [])(1 := ''benc.h v1.0.0\<newline># bench\<newline>''),
      clock = [0, 0, 499999744, 499999744, 1000000000], allocs = []\<rparr>
   = Inr (0,
          \<lparr>name = Some ''bench'', out = 1, indent = 0, data = 0, target_time = SECONDS,
           measurements = \<lparr>capacity = 16, entries = Some [\<lparr>mname = Some ''fib'',
             stats = \<lparr>count = 2, total = 1000000000, mean = Fin 500000000,
                      d_squared = Fin 131072\<rparr>\<rparr>]\<rparr>\<rparr>,
          \<lparr>files = (\<lambda>_. [])(1 := ''benc.h v1.0.0\<newline># bench\<newline>''
                     @ ''fib - 2.00 i/s ('' @ [CHR 0xC2, CHR 0xB1] @ ''256.00%) (500.00ms/i)\<newline>''),
           clock = [], allocs = []\<rparr>)"
  by (simp add: bench_measure_def alloc_def bench_array_push_def bench_array_resize_def
        size_n_def bench_print_indent_def bench_now_def Let_def two_samples_loop
        bench_stats_print_text two_samples_ops two_samples_stddev fmt_2 fmt_256 fmt_500ms
        fprintf_def)

section \<open>Creating a suite\<close>

lemma alloc_succeeds:
  "allocs_succeed (Suc n) w \<Longrightarrow>
     alloc w = (True, w\<lparr>allocs := drop 1 (allocs w)\<rparr>) \<and> allocs_succeed n (w\<lparr>allocs := drop 1 (allocs w)\<rparr>)"
  by (cases "allocs w") (auto simp: alloc_def allocs_succeed_def drop_Suc)

lemma bench_create_ok:
  assumes "allocs_succeed 3 w"
  shows "bench_create nm f ind dat w
     = Inr (Some \<lparr>name = Some nm, out = f, indent = ind, data = dat, target_time = 1000000000,
                  measurements = \<lparr>capacity = 16, entries = Some []\<rparr>\<rparr>,
            (fprintf f (suite_header ind nm) w)\<lparr>allocs := drop 3 (allocs w)\<rparr>)"
proof -
  have s3: "allocs_succeed (Suc 2) w" using assms by (simp add: numeral_3_eq_3 eval_nat_numeral)
  define w1 where "w1 = w\<lparr>allocs := drop 1 (allocs w)\<rparr>"
  from alloc_succeeds [OF s3] have a1: "alloc w = (True, w1)" and s2: "allocs_succeed (Suc 1) w1"
    by (simp_all add: w1_def eval_nat_numeral)
  define w2 where "w2 = w1\<lparr>allocs := drop 1 (allocs w1)\<rparr>"
  from alloc_succeeds [OF s2] have a2: "alloc w1 = (True, w2)" and s1: "allocs_succeed (Suc 0) w2"
    by (simp_all add: w2_def)
  define w3 where "w3 = w2\<lparr>allocs := drop 1 (allocs w2)\<rparr>"
  from alloc_succeeds [OF s1] have a3: "alloc w2 = (True, w3)" by (simp add: w3_def)
  have w3: "w3 = w\<lparr>allocs := drop 3 (allocs w)\<rparr>"
    by (simp add: w3_def w2_def w1_def numeral_3_eq_3)
  have init: "bench_array_init 16 w2
      = (True, \<lparr>capacity = 16, entries = Some ([] :: bench_measurement_t list)\<rparr>, w3)"
    by (simp add: bench_array_init_def bench_array_resize_def size_n_def a3)
  show ?thesis
    unfolding bench_create_def
    by (simp add: a1 a2 init Let_def SECONDS_def w3 bench_print_indent_def suite_header_def
          fprintf_def)
qed

section \<open>The ranking report\<close>

lemma compare_loop_rest:
  assumes "\<forall>m\<in>set ms. mname m \<noteq> None"
  shows "compare_loop b (Some (stats fastest)) ms w
     = Inr (fprintf (out b)
              (concat (map (\<lambda>m. replicate (nat (indent b)) CHR '' '' @ ''  - '' @ name_text m
                                 @ '' ('' @ fmt_2f (percent_slower m fastest) @ ''% slower)\<newline>'') ms))
              w)"
  using assms
proof (induction ms arbitrary: w)
  case Nil
  show ?case by (simp add: fprintf_def)
next
  case (Cons m ms)
  from Cons.prems obtain nm where nm: "mname m = Some nm" by auto
  from Cons.prems have rest: "\<forall>m\<in>set ms. mname m \<noteq> None" by simp
  show ?case
    by (simp add: nm Cons.IH [OF rest] Let_def bench_print_indent_def fprintf_fprintf
          percent_slower_def name_text_def)
qed

lemma compare_loop_report:
  assumes "\<forall>m\<in>set ys. mname m \<noteq> None"
  shows "compare_loop b None ys w
     = Inr (fprintf (out b) (compare_report (replicate (nat (indent b)) CHR '' '') ys) w)"
proof (cases ys)
  case Nil
  then show ?thesis by (simp add: compare_report_def fprintf_def)
next
  case (Cons m ms)
  with assms obtain nm where nm: "mname m = Some nm" by auto
  from Cons assms have rest: "\<forall>m\<in>set ms. mname m \<noteq> None" by simp
  show ?thesis
    by (simp add: Cons nm compare_loop_rest [OF rest] Let_def bench_print_indent_def
          fprintf_fprintf compare_report_def name_text_def)
qed

lemma count_list_set: "(\<forall>x. count_list ys x = count_list xs x) \<Longrightarrow> set ys = set xs"
proof -
  assume a: "\<forall>x. count_list ys x = count_list xs x"
  have "\<And>x. x \<in> set ys \<longleftrightarrow> x \<in> set xs"
    using a by (metis count_list_0_iff)
  then show ?thesis by blast
qed

lemma compare_le_iff:
  "bench_compare_measurement a c \<le> 0
     \<longleftrightarrow> \<not> f32_lt (bench_stats_ops_per_sec (stats a)) (bench_stats_ops_per_sec (stats c))"
proof -
  have "\<not> (f32_lt x y \<and> f32_lt y x)" for x y
    by (cases x; cases y) auto
  then show ?thesis
    by (auto simp: bench_compare_measurement_def Let_def f32_gt_def)
qed

text \<open>What \<^verbatim>\<open>bench_compare\<close> writes for a suite of two or more named measurements.\<close>

lemma bench_compare_report:
  assumes "entries (measurements b) = Some xs" and "2 \<le> length xs"
    and "\<forall>m\<in>set xs. mname m \<noteq> None"
    and "qsort_sorts qsort bench_compare_measurement xs"
  shows "bench_compare qsort b w
        = Inr (fprintf (out b)
                 (replicate (nat (indent b)) CHR '' '' @ ''Comparing...\<newline>''
                  @ compare_report (replicate (nat (indent b)) CHR '' '')
                      (qsort bench_compare_measurement xs))
                 w)"
proof -
  let ?ys = "qsort bench_compare_measurement xs"
  from assms(4) have "\<forall>x. count_list ?ys x = count_list xs x" by (simp add: qsort_sorts_def)
  then have "set ?ys = set xs" by (rule count_list_set)
  with assms(3) have names: "\<forall>m\<in>set ?ys. mname m \<noteq> None" by simp
  from assms(1,2) have sz: "1 < size_n (measurements b)" by (simp add: size_n_def)
  show ?thesis
    using assms(1) sz
    by (simp add: bench_compare_def compare_loop_report [OF names] bench_print_indent_def
          fprintf_fprintf)
qed

lemma bench_compare_silent: "size_n (measurements b) \<le> 1 \<Longrightarrow> bench_compare qsort b w = Inr w"
  by (simp add: bench_compare_def)

section \<open>Three measurements, ranked\<close>

lemma ops_A: "bench_stats_ops_per_sec
    \<lparr>count = 1000, total = 1000000000, mean = Fin 1000000, d_squared = Fin 0\<rparr> = Fin 1000"
  by (simp add: bench_stats_ops_per_sec_def fp_eval)

lemma ops_B: "bench_stats_ops_per_sec
    \<lparr>count = 2000, total = 1000000000, mean = Fin 500000, d_squared = Fin 0\<rparr> = Fin 2000"
  by (simp add: bench_stats_ops_per_sec_def fp_eval)

lemma ops_C: "bench_stats_ops_per_sec
    \<lparr>count = 500, total = 1000000000, mean = Fin 2000000, d_squared = Fin 0\<rparr> = Fin 500"
  by (simp add: bench_stats_ops_per_sec_def fp_eval)

lemma slower_A: "percent_slower
    \<lparr>mname = Some ''A'', stats = \<lparr>count = 1000, total = 1000000000, mean = Fin 1000000, d_squared = Fin 0\<rparr>\<rparr>
    \<lparr>mname = Some ''B'', stats = \<lparr>count = 2000, total = 1000000000, mean = Fin 500000, d_squared = Fin 0\<rparr>\<rparr>
    = Fin 100"
  by (simp add: percent_slower_def fp_eval)

lemma slower_C: "percent_slower
    \<lparr>mname = Some ''C'', stats = \<lparr>count = 500, total = 1000000000, mean = Fin 2000000, d_squared = Fin 0\<rparr>\<rparr>
    \<lparr>mname = Some ''B'', stats = \<lparr>count = 2000, total = 1000000000, mean = Fin 500000, d_squared = Fin 0\<rparr>\<rparr>
    = Fin 300"
  by (simp add: percent_slower_def fp_eval)

lemma fmt_100: "fmt_2f (Fin 100) = ''100.00''"
  by (simp add: fmt_2f.simps rne_def Let_def dec_digits.simps)

lemma fmt_300: "fmt_2f (Fin 300) = ''300.00''"
  by (simp add: fmt_2f.simps rne_def Let_def dec_digits.simps)

lemma sort_ABC:
  "isort_by bench_compare_measurement
     [\<lparr>mname = Some ''A'', stats = \<lparr>count = 1000, total = 1000000000, mean = Fin 1000000, d_squared = Fin 0\<rparr>\<rparr>,
      \<lparr>mname = Some ''B'', stats = \<lparr>count = 2000, total = 1000000000, mean = Fin 500000, d_squared = Fin 0\<rparr>\<rparr>,
      \<lparr>mname = Some ''C'', stats = \<lparr>count = 500, total = 1000000000, mean = Fin 2000000, d_squared = Fin 0\<rparr>\<rparr>]
   = [\<lparr>mname = Some ''B'', stats = \<lparr>count = 2000, total = 1000000000, mean = Fin 500000, d_squared = Fin 0\<rparr>\<rparr>,
      \<lparr>mname = Some ''A'', stats = \<lparr>count = 1000, total = 1000000000, mean = Fin 1000000, d_squared = Fin 0\<rparr>\<rparr>,
      \<lparr>mname = Some ''C'', stats = \<lparr>count = 500, total = 1000000000, mean = Fin 2000000, d_squared = Fin 0\<rparr>\<rparr>]"
  by (simp add: isort_by_def bench_compare_measurement_def Let_def ops_A ops_B ops_C f32_gt_def)

lemma sorts_ABC:
  "qsort_sorts isort_by bench_compare_measurement
     [\<lparr>mname = Some ''A'', stats = \<lparr>count = 1000, total = 1000000000, mean = Fin 1000000, d_squared = Fin 0\<rparr>\<rparr>,
      \<lparr>mname = Some ''B'', stats = \<lparr>count = 2000, total = 1000000000, mean = Fin 500000, d_squared = Fin 0\<rparr>\<rparr>,
      \<lparr>mname = Some ''C'', stats = \<lparr>count = 500, total = 1000000000, mean = Fin 2000000, d_squared = Fin 0\<rparr>\<rparr>]"
  unfolding qsort_sorts_def sort_ABC
  by (simp add: bench_compare_measurement_def Let_def ops_A ops_B ops_C f32_gt_def)

section \<open>The population variance as a difference of sums\<close>



section \<open>Runs of pushes, evaluated\<close>













section \<open>Rounding errors of the running mean and variance\<close>














section \<open>Runs of the sampling loop: the converse\<close>

text \<open>
  The converse: when the clock holds the readings of \<open>n\<close> iterations, the total is below
  the target before each of them and not below it after the last, the loop returns, with
  the statistics of these \<open>n\<close> pushes and the readings that are left.
\<close>

lemma sample_loop_total:
  assumes "2 * n \<le> length clk"
    and "\<forall>j<n. total (pushes st (take j (durations clk))) < target"
    and "\<not> total (pushes st (take n (durations clk))) < target"
  shows "sample_loop target st clk
           = Inr (pushes st (take n (durations clk)), drop (2 * n) clk)"
  using assms
proof (induction n arbitrary: st clk)
  case 0
  then show ?case by (simp add: pushes_Nil sample_loop_done)
next
  case (Suc n)
  then obtain s e rest where clk: "clk = s # e # rest"
    by (cases clk; cases "tl clk") auto
  from Suc.prems(2) have t0: "total st < target" by (auto simp: pushes_Nil dest: spec [of _ 0])
  have len: "2 * n \<le> length rest" using Suc.prems(1) clk by simp
  have below: "\<forall>j<n. total (pushes (bench_stats_push st (e - s)) (take j (durations rest))) < target"
  proof (intro allI impI)
    fix j assume "j < n"
    then have "Suc j < Suc n" by simp
    with Suc.prems(2) have "total (pushes st (take (Suc j) (durations clk))) < target" by blast
    then show "total (pushes (bench_stats_push st (e - s)) (take j (durations rest))) < target"
      by (simp add: clk pushes_Cons)
  qed
  have last: "\<not> total (pushes (bench_stats_push st (e - s)) (take n (durations rest))) < target"
    using Suc.prems(3) by (simp add: clk pushes_Cons)
  from Suc.IH [OF len below last] show ?case
    by (simp add: clk sample_loop_step [OF t0] pushes_Cons)
qed

text \<open>When the readings run out while the total is still below the target, the run faults.\<close>

lemma sample_loop_clock_end:
  assumes "\<forall>j\<le>length clk div 2. total (pushes st (take j (durations clk))) < target"
  shows "sample_loop target st clk = Inl ClockEnd"
  using assms
proof (induction target st clk rule: sample_loop.induct)
  case (1 target st clk)
  from 1(2) have t0: "total st < target" by (auto simp: pushes_Nil dest: spec [of _ 0])
  show ?case
  proof (cases "\<exists>s e rest. clk = s # e # rest")
    case True
    then obtain s e rest where clk: "clk = s # e # rest" by blast
    have "\<forall>j\<le>length rest div 2.
            total (pushes (bench_stats_push st (e - s)) (take j (durations rest))) < target"
    proof (intro allI impI)
      fix j assume "j \<le> length rest div 2"
      then have "Suc j \<le> length clk div 2" using clk by simp
      with 1(2) have "total (pushes st (take (Suc j) (durations clk))) < target" by blast
      then show "total (pushes (bench_stats_push st (e - s)) (take j (durations rest))) < target"
        by (simp add: clk pushes_Cons)
    qed
    from 1(1) [OF t0 clk refl this] show ?thesis
      by (simp add: clk sample_loop_step [OF t0])
  next
    case False
    then show ?thesis using t0
      by (subst sample_loop.simps) (auto split: list.splits)
  qed
qed

lemma total_pushes: "total (pushes st vs) = total st + sum_list vs"
  by (induction vs arbitrary: st) (simp_all add: pushes_Nil pushes_Cons total_push add.assoc)

lemma sample_loop_faults:
  "sample_loop target st clk = Inl f \<Longrightarrow> f = ClockEnd"
proof (induction target st clk rule: sample_loop.induct)
  case (1 target st clk)
  show ?case
  proof (cases "total st < target")
    case True
    show ?thesis
    proof (cases "\<exists>s e rest. clk = s # e # rest")
      case True
      then obtain s e rest where clk: "clk = s # e # rest" by blast
      with 1(2) \<open>total st < target\<close>
      have "sample_loop target (bench_stats_push st (e - s)) rest = Inl f"
        by (simp add: sample_loop_step)
      from 1(1) [OF \<open>total st < target\<close> clk refl this] show ?thesis .
    next
      case False
      with 1(2) \<open>total st < target\<close> show ?thesis
        by (subst (asm) sample_loop.simps) (auto split: list.splits)
    qed
  next
    case False
    with 1(2) show ?thesis by (simp add: sample_loop_done)
  qed
qed

section \<open>A group of two measurements, evaluated\<close>

lemma fast_loop:
  "sample_loop 1000000000 bench_stats_init ([0, 499999744, 499999744, 1000000000] @ rest)
     = Inr (\<lparr>count = 2, total = 1000000000, mean = Fin 500000000, d_squared = Fin 131072\<rparr>, rest)"
proof -
  have t0: "total bench_stats_init < 1000000000" by (simp add: bench_stats_init_def)
  have t1: "total \<lparr>count = 1, total = 499999744, mean = Fin 499999744, d_squared = Fin 0\<rparr>
              < 1000000000" by simp
  have t2: "\<not> total \<lparr>count = 2, total = 1000000000, mean = Fin 500000000,
                         d_squared = Fin 131072\<rparr> < 1000000000" by simp
  have d1: "(499999744 :: 64 word) - 0 = 499999744" by simp
  have d2: "(1000000000 :: 64 word) - 499999744 = 500000256" by simp
  have c: "[0, 499999744, 499999744, 1000000000] @ rest
             = 0 # 499999744 # 499999744 # 1000000000 # rest" by simp
  show ?thesis
    by (simp only: c sample_loop_step [OF t0] d1 push_first_sample
          sample_loop_step [OF t1] d2 push_second_sample sample_loop_done [OF t2])
qed

lemma push_slow:
  "bench_stats_push bench_stats_init 2000000000
     = \<lparr>count = 1, total = 2000000000, mean = Fin 2000000000, d_squared = Fin 0\<rparr>"
proof -
  have "f32_of_u64 2000000000 = Fin 2000000000" by (simp add: fp_eval)
  then show ?thesis by (simp add: push_init)
qed

lemma slow_loop:
  "sample_loop 1000000000 bench_stats_init [0, 2000000000]
     = Inr (\<lparr>count = 1, total = 2000000000, mean = Fin 2000000000, d_squared = Fin 0\<rparr>, [])"
proof -
  have t0: "total bench_stats_init < 1000000000" by (simp add: bench_stats_init_def)
  have t1: "\<not> total \<lparr>count = 1, total = 2000000000, mean = Fin 2000000000, d_squared = Fin 0\<rparr>
              < 1000000000" by simp
  have d1: "(2000000000 :: 64 word) - 0 = 2000000000" by simp
  show ?thesis
    by (simp only: sample_loop_step [OF t0] d1 push_slow sample_loop_done [OF t1])
qed

lemma slow_ops:
  "bench_stats_ops_per_sec
     \<lparr>count = 1, total = 2000000000, mean = Fin 2000000000, d_squared = Fin 0\<rparr> = Fin (1 / 2)"
  by (simp add: bench_stats_ops_per_sec_def fp_eval)

lemma slow_stddev:
  "bench_stats_stddev
     \<lparr>count = 1, total = 2000000000, mean = Fin 2000000000, d_squared = Fin 0\<rparr> = Fin 0"
proof -
  have one: "f32_of_u32 1 = Fin 1" by (simp add: f32_of_u32_def f32_one)
  have v: "bench_stats_variance
     \<lparr>count = 1, total = 2000000000, mean = Fin 2000000000, d_squared = Fin 0\<rparr> = Fin 0"
    by (simp add: bench_stats_variance_def one f32_zero)
  show ?thesis by (simp add: bench_stats_stddev_def v f64_zero f32_zero)
qed

lemma fmt_half: "format_spec (Fin (1 / 2)) False = ''0.50''"
proof -
  have e4: "(4::nat) = Suc 3" by simp
  have "scale_spec 4 (Fin (1 / 2)) = (Fin (1 / 2), 0)" unfolding e4 by (rule scale_small) simp
  moreover have "fmt_2f (Fin (1 / 2)) = ''0.50''"
    by (simp add: fmt_2f.simps rne_def Let_def dec_digits.simps)
  ultimately show ?thesis by (simp add: format_spec_def unit_suffix_def)
qed

lemma fmt_0: "fmt_2f (Fin 0) = ''0.00''"
  by (simp add: fmt_2f.simps rne_def Let_def dec_digits.simps)

lemma fmt_2s: "format_spec (Fin 2000000000) True = ''2.00s''"
proof -
  have d1: "f32 2000000 = Fin 2000000" by (simp add: fp_eval)
  have d2: "f32 2000 = Fin 2000" by (simp add: fp_eval)
  have d3: "f32 2 = Fin 2" by (simp add: fp_eval)
  have "scale_spec 3 (Fin 2000000000) = (Fin 2, 3)"
    by (simp add: numeral_3_eq_3 f32_of_int_1000 d1 d2 d3)
  moreover have "fmt_2f (Fin 2) = ''2.00''"
    by (simp add: fmt_2f.simps rne_def Let_def dec_digits.simps)
  ultimately show ?thesis by (simp add: format_spec_def unit_suffix_def)
qed

lemma measure_fast:
  "bench_measure \<lparr>name = Some ''publish'', out = 1, indent = 2, data = 0,
                  target_time = 1000000000,
                  measurements = \<lparr>capacity = 16, entries = Some []\<rparr>\<rparr> ''fast''
     \<lparr>files = (\<lambda>_. [])(1 := ''benc.h v1.0.0\<newline># bench\<newline>  # publish\<newline>''),
      clock = [0, 0, 499999744, 499999744, 1000000000, 0, 0, 2000000000], allocs = []\<rparr>
   = Inr (0,
          \<lparr>name = Some ''publish'', out = 1, indent = 2, data = 0, target_time = 1000000000,
           measurements = \<lparr>capacity = 16, entries = Some [\<lparr>mname = Some ''fast'',
             stats = \<lparr>count = 2, total = 1000000000, mean = Fin 500000000,
                      d_squared = Fin 131072\<rparr>\<rparr>]\<rparr>\<rparr>,
          \<lparr>files = (\<lambda>_. [])(1 := ''benc.h v1.0.0\<newline># bench\<newline>  # publish\<newline>''
                     @ ''  fast - 2.00 i/s ('' @ [CHR 0xC2, CHR 0xB1] @ ''256.00%) (500.00ms/i)\<newline>''),
           clock = [0, 0, 2000000000], allocs = []\<rparr>)"
proof -
  have l: "sample_loop 1000000000 bench_stats_init
             [0, 499999744, 499999744, 1000000000, 0, 0, 2000000000]
     = Inr (\<lparr>count = 2, total = 1000000000, mean = Fin 500000000, d_squared = Fin 131072\<rparr>,
            [0, 0, 2000000000])"
    using fast_loop [of "[0, 0, 2000000000]"] by simp
  show ?thesis
    by (simp add: bench_measure_def alloc_def bench_array_push_def bench_array_resize_def
        size_n_def bench_print_indent_def bench_now_def Let_def l
        bench_stats_print_text two_samples_ops two_samples_stddev fmt_2 fmt_256 fmt_500ms
        fprintf_def numeral_2_eq_2)
qed

lemma measure_slow:
  "bench_measure
     \<lparr>name = Some ''publish'', out = 1, indent = 2, data = 0, target_time = 1000000000,
      measurements = \<lparr>capacity = 16, entries = Some [\<lparr>mname = Some ''fast'',
        stats = \<lparr>count = 2, total = 1000000000, mean = Fin 500000000,
                 d_squared = Fin 131072\<rparr>\<rparr>]\<rparr>\<rparr> ''slow''
     \<lparr>files = (\<lambda>_. [])(1 := ''benc.h v1.0.0\<newline># bench\<newline>  # publish\<newline>''
                @ ''  fast - 2.00 i/s ('' @ [CHR 0xC2, CHR 0xB1] @ ''256.00%) (500.00ms/i)\<newline>''),
      clock = [0, 0, 2000000000], allocs = []\<rparr>
   = Inr (0,
          \<lparr>name = Some ''publish'', out = 1, indent = 2, data = 0, target_time = 1000000000,
           measurements = \<lparr>capacity = 16, entries = Some
             [\<lparr>mname = Some ''fast'',
               stats = \<lparr>count = 2, total = 1000000000, mean = Fin 500000000,
                        d_squared = Fin 131072\<rparr>\<rparr>,
              \<lparr>mname = Some ''slow'',
               stats = \<lparr>count = 1, total = 2000000000, mean = Fin 2000000000,
                        d_squared = Fin 0\<rparr>\<rparr>]\<rparr>\<rparr>,
          \<lparr>files = (\<lambda>_. [])(1 := ''benc.h v1.0.0\<newline># bench\<newline>  # publish\<newline>''
                     @ ''  fast - 2.00 i/s ('' @ [CHR 0xC2, CHR 0xB1] @ ''256.00%) (500.00ms/i)\<newline>''
                     @ ''  slow - 0.50 i/s ('' @ [CHR 0xC2, CHR 0xB1] @ ''0.00%) (2.00s/i)\<newline>''),
           clock = [], allocs = []\<rparr>)"
  by (simp add: bench_measure_def alloc_def bench_array_push_def bench_array_resize_def
        size_n_def bench_print_indent_def bench_now_def Let_def slow_loop
        bench_stats_print_text slow_ops slow_stddev fmt_half fmt_0 fmt_2s
        fprintf_def numeral_2_eq_2)

lemma sort_fast_slow:
  "isort_by bench_compare_measurement
     [\<lparr>mname = Some ''fast'',
       stats = \<lparr>count = 2, total = 1000000000, mean = Fin 500000000, d_squared = Fin 131072\<rparr>\<rparr>,
      \<lparr>mname = Some ''slow'',
       stats = \<lparr>count = 1, total = 2000000000, mean = Fin 2000000000, d_squared = Fin 0\<rparr>\<rparr>]
   = [\<lparr>mname = Some ''fast'',
       stats = \<lparr>count = 2, total = 1000000000, mean = Fin 500000000, d_squared = Fin 131072\<rparr>\<rparr>,
      \<lparr>mname = Some ''slow'',
       stats = \<lparr>count = 1, total = 2000000000, mean = Fin 2000000000, d_squared = Fin 0\<rparr>\<rparr>]"
  by (simp add: isort_by_def bench_compare_measurement_def Let_def two_samples_ops slow_ops
        f32_gt_def)

lemma sorts_fast_slow:
  "qsort_sorts isort_by bench_compare_measurement
     [\<lparr>mname = Some ''fast'',
       stats = \<lparr>count = 2, total = 1000000000, mean = Fin 500000000, d_squared = Fin 131072\<rparr>\<rparr>,
      \<lparr>mname = Some ''slow'',
       stats = \<lparr>count = 1, total = 2000000000, mean = Fin 2000000000, d_squared = Fin 0\<rparr>\<rparr>]"
  unfolding qsort_sorts_def sort_fast_slow
  by (simp add: bench_compare_measurement_def Let_def two_samples_ops slow_ops f32_gt_def)

lemma slower_slow: "percent_slower
    \<lparr>mname = Some ''slow'',
     stats = \<lparr>count = 1, total = 2000000000, mean = Fin 2000000000, d_squared = Fin 0\<rparr>\<rparr>
    \<lparr>mname = Some ''fast'',
     stats = \<lparr>count = 2, total = 1000000000, mean = Fin 500000000, d_squared = Fin 131072\<rparr>\<rparr>
    = Fin 300"
  by (simp add: percent_slower_def fp_eval)

section \<open>C10: a single sample\<close>

text \<open>
  Claim C10. After exactly one \<^verbatim>\<open>bench_stats_push\<close> of any value \<open>v\<close> into a freshly
  initialised \<^verbatim>\<open>bench_stats_t\<close>, the state is \<open>count = 1\<close>, \<open>total = v\<close>, \<open>mean = v\<close> and
  \<open>d_squared = 0\<close>, so \<^verbatim>\<open>bench_stats_variance\<close> and \<^verbatim>\<open>bench_stats_stddev\<close> both return 0.
  The field \<open>mean\<close> is a \<^verbatim>\<open>float\<close>, so what it holds is \<open>(float) v\<close>, the binary32 number
  nearest to \<open>v\<close>: for every \<open>v\<close> the state is \<open>count = 1\<close>, \<open>total = v\<close>,
  \<open>mean = (float) v\<close>, \<open>d_squared = 0\<close>, the variance and the standard deviation are 0, the
  mean is within a relative error of \<open>2 powi -24\<close> of \<open>v\<close>, and it is \<open>v\<close> itself when
  \<open>v \<le> 2^24\<close>.
\<close>

theorem single_sample_stats:
  "bench_stats_push bench_stats_init v
     = \<lparr>count = 1, total = v, mean = f32_of_u64 v, d_squared = Fin 0\<rparr>
   \<and> (\<exists>y. f32_of_u64 v = Fin y \<and> \<bar>y - real (unat v)\<bar> \<le> 2 powi (- 24) * real (unat v))
   \<and> (unat v \<le> 2 ^ 24 \<longrightarrow> f32_of_u64 v = Fin (real (unat v)))
   \<and> bench_stats_variance (bench_stats_push bench_stats_init v) = Fin 0
   \<and> bench_stats_stddev (bench_stats_push bench_stats_init v) = Fin 0"
proof -
  have one: "f32_of_u32 1 = Fin 1" by (simp add: f32_of_u32_def f32_one)
  have var: "bench_stats_variance (bench_stats_push bench_stats_init v) = Fin 0"
    by (simp add: push_init bench_stats_variance_def one f32_zero)
  have sd: "bench_stats_stddev (bench_stats_push bench_stats_init v) = Fin 0"
    by (simp add: bench_stats_stddev_def var f64_zero f32_zero)
  have near: "\<exists>y. f32_of_u64 v = Fin y \<and> \<bar>y - real (unat v)\<bar> \<le> 2 powi (- 24) * real (unat v)"
    using f32_of_u64_Fin [of v] f32_of_u64_rel_err [of v] by blast
  show ?thesis using var sd near f32_of_u64_exact [of v] push_init [of v] by blast
qed

theorem single_sample_stats_witness:
  "unat (20 :: 64 word) \<le> 2 ^ 24
   \<and> f32_of_u64 20 = Fin 20
   \<and> bench_stats_push bench_stats_init 20
       = \<lparr>count = 1, total = 20, mean = f32_of_u64 20, d_squared = Fin 0\<rparr>
   \<and> bench_stats_variance (bench_stats_push bench_stats_init 20) = Fin 0
   \<and> bench_stats_stddev (bench_stats_push bench_stats_init 20) = Fin 0"
proof -
  have h: "unat (20 :: 64 word) \<le> 2 ^ 24" by simp
  have e: "real (unat (20 :: 64 word)) = 20" by simp
  note t = single_sample_stats [of 20]
  from t h have "f32_of_u64 20 = Fin (real (unat (20 :: 64 word)))" by blast
  then have m: "f32_of_u64 20 = Fin 20" unfolding e .
  from t h m show ?thesis by blast
qed

text \<open>
  Beyond \<open>2^24\<close> the mean is not always the value pushed: a single duration of
  16777217 ns leaves a mean of 16777216.
\<close>

theorem single_sample_mean_counterexample:
  "bench_stats_push bench_stats_init 16777217
     = \<lparr>count = 1, total = 16777217, mean = Fin 16777216, d_squared = Fin 0\<rparr>
   \<and> (16777216 :: real) \<noteq> real (unat (16777217 :: 64 word))"
proof -
  have "f32_of_u64 16777217 = Fin 16777216" by (simp add: fp_eval)
  then show ?thesis by (simp add: push_init)
qed

section \<open>C2: the sampling loop and its first iteration\<close>

text \<open>
  Claim C2. The sampling loop of \<^verbatim>\<open>bench_measure\<close> continues exactly while the accumulated
  time \<open>stats.total\<close> is smaller than the suite's \<open>target_time\<close>, and when the first measured
  call already reaches the target it stops after exactly one iteration with \<open>count = 1\<close>.
  The loop tests before it runs (\<^verbatim>\<open>while\<close>, not \<^verbatim>\<open>do\<close>), so this holds for a target of at
  least one nanosecond, as \<^verbatim>\<open>bench_create\<close> sets it. For such a target the loop from the
  initial statistics returns with statistics \<open>st'\<close> and the readings \<open>clk'\<close> left if and
  only if, for some \<open>n \<ge> 1\<close>, it made \<open>n\<close> iterations: \<open>st'\<close> holds the first \<open>n\<close>
  durations, \<open>2 * n\<close> readings are consumed, the total was below the target before each
  iteration and is not below it after the last. It stops for want of a clock reading if
  and only if the total stays below the target for all the durations the clock holds.
  A first duration that reaches the target ends the loop after one push, two clock
  readings consumed.
\<close>

theorem sampling_loop_runs_at_least_once:
  assumes "0 < target"
  shows "(sample_loop target bench_stats_init clk = Inr (st', clk') \<longleftrightarrow>
            (\<exists>n\<ge>1. 2 * n \<le> length clk \<and> clk' = drop (2 * n) clk
               \<and> st' = pushes bench_stats_init (take n (durations clk))
               \<and> (\<forall>j<n. total (pushes bench_stats_init (take j (durations clk))) < target)
               \<and> \<not> total st' < target))
       \<and> (sample_loop target bench_stats_init clk = Inl ClockEnd \<longleftrightarrow>
            (\<forall>j\<le>length clk div 2.
               total (pushes bench_stats_init (take j (durations clk))) < target))
       \<and> (target \<le> e - s \<longrightarrow>
            sample_loop target bench_stats_init (s # e # rest)
              = Inr (bench_stats_push bench_stats_init (e - s), rest)
            \<and> count (bench_stats_push bench_stats_init (e - s)) = 1)"
proof (intro conjI impI iffI)
  assume r: "sample_loop target bench_stats_init clk = Inr (st', clk')"
  from sample_loop_result [OF r] obtain n where n:
    "2 * n \<le> length clk" "clk' = drop (2 * n) clk"
    "st' = pushes bench_stats_init (take n (durations clk))"
    "\<forall>j<n. total (pushes bench_stats_init (take j (durations clk))) < target"
    "\<not> total st' < target"
    by blast
  have "n \<noteq> 0"
  proof
    assume "n = 0"
    with n(3) have "st' = bench_stats_init" by (simp add: pushes_Nil)
    with n(5) assms show False by (simp add: bench_stats_init_def)
  qed
  then have "1 \<le> n" by simp
  with n show "\<exists>n\<ge>1. 2 * n \<le> length clk \<and> clk' = drop (2 * n) clk
               \<and> st' = pushes bench_stats_init (take n (durations clk))
               \<and> (\<forall>j<n. total (pushes bench_stats_init (take j (durations clk))) < target)
               \<and> \<not> total st' < target"
    by blast
next
  assume "\<exists>n\<ge>1. 2 * n \<le> length clk \<and> clk' = drop (2 * n) clk
               \<and> st' = pushes bench_stats_init (take n (durations clk))
               \<and> (\<forall>j<n. total (pushes bench_stats_init (take j (durations clk))) < target)
               \<and> \<not> total st' < target"
  then obtain n where n: "2 * n \<le> length clk" "clk' = drop (2 * n) clk"
    "st' = pushes bench_stats_init (take n (durations clk))"
    "\<forall>j<n. total (pushes bench_stats_init (take j (durations clk))) < target"
    "\<not> total st' < target"
    by blast
  from n(5) have "\<not> total (pushes bench_stats_init (take n (durations clk))) < target"
    unfolding n(3) .
  from sample_loop_total [OF n(1) n(4) this]
  show "sample_loop target bench_stats_init clk = Inr (st', clk')"
    unfolding n(2,3) .
next
  assume f: "sample_loop target bench_stats_init clk = Inl ClockEnd"
  show "\<forall>j\<le>length clk div 2.
          total (pushes bench_stats_init (take j (durations clk))) < target"
  proof (rule ccontr)
    assume "\<not> (\<forall>j\<le>length clk div 2.
                 total (pushes bench_stats_init (take j (durations clk))) < target)"
    then have ex: "\<exists>j. j \<le> length clk div 2
                 \<and> \<not> total (pushes bench_stats_init (take j (durations clk))) < target"
      by blast
    define n where "n = (LEAST j. j \<le> length clk div 2
                 \<and> \<not> total (pushes bench_stats_init (take j (durations clk))) < target)"
    from ex have n: "n \<le> length clk div 2"
      "\<not> total (pushes bench_stats_init (take n (durations clk))) < target"
      unfolding n_def by (metis (mono_tags, lifting) LeastI)+
    have below: "\<forall>j<n. total (pushes bench_stats_init (take j (durations clk))) < target"
    proof (intro allI impI)
      fix j assume j: "j < n"
      then have "\<not> (j \<le> length clk div 2
                 \<and> \<not> total (pushes bench_stats_init (take j (durations clk))) < target)"
        unfolding n_def by (rule not_less_Least)
      moreover from j n(1) have "j \<le> length clk div 2" by simp
      ultimately show "total (pushes bench_stats_init (take j (durations clk))) < target"
        by blast
    qed
    from n(1) have "2 * n \<le> length clk" by simp
    from sample_loop_total [OF this below n(2)] f show False by simp
  qed
next
  assume "\<forall>j\<le>length clk div 2.
          total (pushes bench_stats_init (take j (durations clk))) < target"
  then show "sample_loop target bench_stats_init clk = Inl ClockEnd"
    by (rule sample_loop_clock_end)
next
  assume "target \<le> e - s"
  with assms show "sample_loop target bench_stats_init (s # e # rest)
              = Inr (bench_stats_push bench_stats_init (e - s), rest)"
    by (rule sample_loop_first)
next
  show "count (bench_stats_push bench_stats_init (e - s)) = 1"
    by (simp add: count_push bench_stats_init_def)
qed

theorem sampling_loop_runs_at_least_once_witness:
  "(0 :: 64 word) < 1000000000 \<and> (1000000000 :: 64 word) \<le> 2000000000 - 0
   \<and> sample_loop 1000000000 bench_stats_init [0, 2000000000]
       = Inr (bench_stats_push bench_stats_init (2000000000 - 0), [])
   \<and> count (bench_stats_push bench_stats_init (2000000000 - 0)) = 1
   \<and> sample_loop 1000000000 bench_stats_init [0, 499999744, 499999744, 1000000000]
       = Inr (pushes bench_stats_init [499999744, 500000256], [])
   \<and> sample_loop 1000000000 bench_stats_init [0, 499999744] = Inl ClockEnd"
proof -
  have h: "(0 :: 64 word) < 1000000000" by simp
  have d: "(1000000000 :: 64 word) \<le> 2000000000 - 0" by simp
  note t1 = sampling_loop_runs_at_least_once [OF h, of "[0, 2000000000]"
      "bench_stats_push bench_stats_init (2000000000 - 0)" "[]" 2000000000 0 "[]"]
  from t1 d have 1: "sample_loop 1000000000 bench_stats_init [0, 2000000000]
       = Inr (bench_stats_push bench_stats_init (2000000000 - 0), [])
     \<and> count (bench_stats_push bench_stats_init (2000000000 - 0)) = 1"
    by blast
  let ?clk = "[0, 499999744, 499999744, 1000000000 :: 64 word]"
  let ?st = "pushes bench_stats_init [499999744, 500000256]"
  note t2 = sampling_loop_runs_at_least_once [OF h, of ?clk ?st "[]" 0 0 "[]"]
  have below: "\<forall>j<2. total (pushes bench_stats_init (take j (durations ?clk)))
                  < (1000000000 :: 64 word)"
  proof (intro allI impI)
    fix j :: nat assume "j < 2"
    then consider "j = 0" | "j = 1" by linarith
    then show "total (pushes bench_stats_init (take j (durations ?clk))) < (1000000000 :: 64 word)"
      by cases (simp_all add: total_pushes bench_stats_init_def)
  qed
  have "(2 :: nat) \<ge> 1 \<and> 2 * 2 \<le> length ?clk \<and> [] = drop (2 * 2) ?clk
          \<and> ?st = pushes bench_stats_init (take 2 (durations ?clk))
          \<and> (\<forall>j<2. total (pushes bench_stats_init (take j (durations ?clk))) < 1000000000)
          \<and> \<not> total ?st < 1000000000"
    using below by (simp add: total_pushes bench_stats_init_def)
  then have "\<exists>n\<ge>1. 2 * n \<le> length ?clk \<and> [] = drop (2 * n) ?clk
          \<and> ?st = pushes bench_stats_init (take n (durations ?clk))
          \<and> (\<forall>j<n. total (pushes bench_stats_init (take j (durations ?clk))) < 1000000000)
          \<and> \<not> total ?st < 1000000000"
    by (rule exI [of _ 2])
  with t2 have 2: "sample_loop 1000000000 bench_stats_init ?clk = Inr (?st, [])" by blast
  note t3 = sampling_loop_runs_at_least_once [OF h, of "[0, 499999744]" ?st "[]" 0 0 "[]"]
  have "\<forall>j\<le>length [0, 499999744 :: 64 word] div 2.
          total (pushes bench_stats_init (take j (durations [0, 499999744])))
            < (1000000000 :: 64 word)"
  proof (intro allI impI)
    fix j :: nat assume "j \<le> length [0, 499999744 :: 64 word] div 2"
    then consider "j = 0" | "j = 1" by (simp add: le_Suc_eq) blast
    then show "total (pushes bench_stats_init (take j (durations [0, 499999744])))
                 < (1000000000 :: 64 word)"
      by cases (simp_all add: total_pushes bench_stats_init_def)
  qed
  with t3 have 3: "sample_loop 1000000000 bench_stats_init [0, 499999744] = Inl ClockEnd"
    by blast
  from h d 1 2 3 show ?thesis by blast
qed

text \<open>
  With a target of zero the loop does not run at all, although any first call would reach
  the target: the statistics stay as initialised, with \<open>count = 0\<close>.
\<close>

theorem sampling_loop_zero_target_counterexample:
  "(0 :: 64 word) \<le> 2000000000 - 0
   \<and> sample_loop 0 bench_stats_init [0, 2000000000] = Inr (bench_stats_init, [0, 2000000000])
   \<and> count bench_stats_init = 0"
  by (simp add: sample_loop_done bench_stats_init_def)

section \<open>C7: the statistics read after the loop\<close>

text \<open>
  Claim C7. Whenever \<^verbatim>\<open>bench_measure\<close> reads a measurement's statistics after its sampling
  loop completes, for a suite with a target of at least one nanosecond, \<open>count \<ge> 1\<close> and
  \<open>total \<ge> target_time > 0\<close> hold, so that \<^verbatim>\<open>bench_stats_variance\<close> and
  \<^verbatim>\<open>bench_stats_ops_per_sec\<close> divide by nonzero numbers. \<open>count\<close> is a \<^verbatim>\<open>uint32_t\<close> and
  wraps around, so the bound on \<open>count\<close> holds for a run of fewer than \<open>2^32\<close> iterations
  (fewer than \<open>2 * 2^32\<close> clock readings consumed by the loop); the bound on \<open>total\<close>
  holds for every run. Each divisor, converted to \<^verbatim>\<open>float\<close>, is then at least 1.
\<close>

theorem stats_read_after_loop:
  assumes "bench_measure b nm w = Inr (r, b', w')"
    and "0 < target_time b"
  shows "\<exists>st. sample_loop (target_time b) bench_stats_init (tl (clock w)) = Inr (st, clock w')
           \<and> files w' (out b) =
                 files w (out b) @ replicate (nat (indent b)) CHR '' '' @ nm @ '' - ''
                 @ format_spec (bench_stats_ops_per_sec st) False @ '' i/s (''
                 @ [CHR 0xC2, CHR 0xB1] @ fmt_2f (bench_stats_stddev st) @ ''%) (''
                 @ format_spec (mean st) True @ ''/i)'' @ ''\<newline>''
           \<and> target_time b \<le> total st \<and> 0 < total st
           \<and> (\<exists>t. f32_of_u64 (total st) = Fin t \<and> 1 \<le> t)
           \<and> (length (clock w) - length (clock w') < 2 * 2 ^ 32 \<longrightarrow>
                count st \<noteq> 0 \<and> (\<exists>c. f32_of_u32 (count st) = Fin c \<and> 1 \<le> c))"
proof -
  from bench_measure_result [OF assms(1)] obtain st where
    l: "sample_loop (target_time b) bench_stats_init (tl (clock w)) = Inr (st, clock w')"
    and f: "files w' (out b) =
                 files w (out b) @ replicate (nat (indent b)) CHR '' '' @ nm @ '' - ''
                 @ format_spec (bench_stats_ops_per_sec st) False @ '' i/s (''
                 @ [CHR 0xC2, CHR 0xB1] @ fmt_2f (bench_stats_stddev st) @ ''%) (''
                 @ format_spec (mean st) True @ ''/i)'' @ ''\<newline>''"
    by blast
  note tot = loop_total_reached [OF l assms(2)]
  have cnt: "length (clock w) - length (clock w') < 2 * 2 ^ 32 \<longrightarrow>
                count st \<noteq> 0 \<and> (\<exists>c. f32_of_u32 (count st) = Fin c \<and> 1 \<le> c)"
  proof
    assume "length (clock w) - length (clock w') < 2 * 2 ^ 32"
    then have "length (tl (clock w)) - length (clock w') < 2 * 2 ^ 32" by simp
    from loop_stats_nonzero [OF l assms(2) this]
    show "count st \<noteq> 0 \<and> (\<exists>c. f32_of_u32 (count st) = Fin c \<and> 1 \<le> c)" by blast
  qed
  from l f tot cnt show ?thesis by blast
qed

theorem stats_read_after_loop_witness:
  "bench_measure \<lparr>name = Some ''bench'', out = 1, indent = 0, data = 0, target_time = SECONDS,
                  measurements = \<lparr>capacity = 16, entries = Some []\<rparr>\<rparr> ''fib''
     \<lparr>files = (\<lambda>_. [])(1 := ''benc.h v1.0.0\<newline># bench\<newline>''),
      clock = [0, 0, 499999744, 499999744, 1000000000], allocs = []\<rparr>
   = Inr (0,
          \<lparr>name = Some ''bench'', out = 1, indent = 0, data = 0, target_time = SECONDS,
           measurements = \<lparr>capacity = 16, entries = Some [\<lparr>mname = Some ''fib'',
             stats = \<lparr>count = 2, total = 1000000000, mean = Fin 500000000,
                      d_squared = Fin 131072\<rparr>\<rparr>]\<rparr>\<rparr>,
          \<lparr>files = (\<lambda>_. [])(1 := ''benc.h v1.0.0\<newline># bench\<newline>''
                     @ ''fib - 2.00 i/s ('' @ [CHR 0xC2, CHR 0xB1] @ ''256.00%) (500.00ms/i)\<newline>''),
           clock = [], allocs = []\<rparr>)
   \<and> (0 :: 64 word) < SECONDS
   \<and> length [0, 0, 499999744, 499999744, 1000000000 :: 64 word] - length ([] :: 64 word list)
         < 2 * 2 ^ 32
   \<and> (\<exists>st. sample_loop SECONDS bench_stats_init [0, 499999744, 499999744, 1000000000]
               = Inr (st, [])
          \<and> count st \<noteq> 0 \<and> SECONDS \<le> total st \<and> 0 < total st
          \<and> (\<exists>c. f32_of_u32 (count st) = Fin c \<and> 1 \<le> c)
          \<and> (\<exists>t. f32_of_u64 (total st) = Fin t \<and> 1 \<le> t))"
proof -
  let ?b = "\<lparr>name = Some ''bench'', out = 1, indent = 0, data = 0, target_time = SECONDS,
                  measurements = \<lparr>capacity = 16, entries = Some ([] :: bench_measurement_t list)\<rparr>\<rparr>"
  let ?w = "\<lparr>files = (\<lambda>_. [])(1 := ''benc.h v1.0.0\<newline># bench\<newline>''),
      clock = [0, 0, 499999744, 499999744, 1000000000], allocs = []\<rparr>"
  have h: "0 < target_time ?b" by (simp add: SECONDS_def)
  note t = stats_read_after_loop [OF measure_fib h]
  have len: "length [0, 0, 499999744, 499999744, 1000000000 :: 64 word]
               - length ([] :: 64 word list) < 2 * 2 ^ 32" by simp
  have "\<exists>st. sample_loop SECONDS bench_stats_init [0, 499999744, 499999744, 1000000000]
               = Inr (st, [])
          \<and> count st \<noteq> 0 \<and> SECONDS \<le> total st \<and> 0 < total st
          \<and> (\<exists>c. f32_of_u32 (count st) = Fin c \<and> 1 \<le> c)
          \<and> (\<exists>t. f32_of_u64 (total st) = Fin t \<and> 1 \<le> t)"
    using t by simp blast
  moreover have "(0 :: 64 word) < SECONDS" by (simp add: SECONDS_def)
  ultimately show ?thesis using measure_fib len by blast
qed

text \<open>
  After \<open>2^32\<close> iterations the counter is 0 again: \<open>2^32 - 1\<close> calls during which the clock
  does not advance, then one call of a second, leave \<open>count = 0\<close> with the target reached.
\<close>

theorem count_wraps_counterexample:
  "sample_loop 1000000000 bench_stats_init
       (replicate (2 * (2 ^ 32 - 1)) 0 @ [0, 1000000000])
     = Inr (bench_stats_push (bench_stats_init\<lparr>count := 4294967295\<rparr>) 1000000000, [])
   \<and> count (bench_stats_push (bench_stats_init\<lparr>count := 4294967295\<rparr>) 1000000000) = 0
   \<and> total (bench_stats_push (bench_stats_init\<lparr>count := 4294967295\<rparr>) 1000000000)
       = 1000000000"
proof -
  let ?st = "bench_stats_init\<lparr>count := count bench_stats_init + of_nat (2 ^ 32 - 1)\<rparr>"
  have st: "?st = bench_stats_init\<lparr>count := 4294967295\<rparr>"
    by (simp add: bench_stats_init_def)
  have "sample_loop 1000000000 bench_stats_init
           (replicate (2 * (2 ^ 32 - 1)) 0 @ [0, 1000000000])
        = sample_loop 1000000000 ?st [0, 1000000000]"
    by (rule sample_loop_zero_durations) (simp_all add: bench_stats_init_def)
  also have "\<dots> = Inr (bench_stats_push ?st (1000000000 - 0), [])"
    by (simp add: sample_loop_step sample_loop_done total_push bench_stats_init_def)
  finally show ?thesis
    unfolding st by (simp add: count_push total_push bench_stats_init_def)
qed

section \<open>C9: the formatter\<close>

text \<open>
  Claim C9. The formatter repeatedly divides the input value by 1000 while it is at least
  1000, counting levels, capped at 3 levels for time quantities and 4 levels for counts,
  and prints the scaled value with 2 decimal places plus the level's unit suffix; in
  particular 999 prints as \<open>999.00\<close>, 1500 as \<open>1.50k\<close>, the time 999 as \<open>999.00ns\<close> and the
  time 1500000 as \<open>1.50ms\<close>. \<^verbatim>\<open>bench_human_number\<close> writes, for every value (infinities and
  NaN included), the text that the specification's wording \<open>format_spec\<close> gives.
\<close>

theorem formatter_scales_by_thousands:
  "bench_human_number f number time w = fprintf f (format_spec number time) w
   \<and> files (bench_human_number f (Fin 999) False w) f = files w f @ ''999.00''
   \<and> files (bench_human_number f (Fin 1500) False w) f = files w f @ ''1.50k''
   \<and> files (bench_human_number f (Fin 999) True w) f = files w f @ ''999.00ns''
   \<and> files (bench_human_number f (Fin 1500000) True w) f = files w f @ ''1.50ms''"
proof -
  have 1: "files (bench_human_number f (Fin 999) False w) f = files w f @ ''999.00''"
    by (simp add: bench_human_number_def human_999 fmt_999 fprintf_def)
  have 2: "files (bench_human_number f (Fin 1500) False w) f = files w f @ ''1.50k''"
    by (simp add: bench_human_number_def human_1500 fmt_1_50 fprintf_def)
  have 3: "files (bench_human_number f (Fin 999) True w) f = files w f @ ''999.00ns''"
    by (simp add: bench_human_number_def human_999 fmt_999 fprintf_def)
  have 4: "files (bench_human_number f (Fin 1500000) True w) f = files w f @ ''1.50ms''"
    by (simp add: bench_human_number_def human_1500000 fmt_1_50 fprintf_def)
  show ?thesis using bench_human_number_spec 1 2 3 4 by blast
qed

section \<open>C4: the throughput\<close>

text \<open>
  Claim C4. For every \<^verbatim>\<open>bench_stats_t\<close> with \<open>total > 0\<close>, \<^verbatim>\<open>bench_stats_ops_per_sec\<close> returns
  \<open>count / total * 1e9\<close>, the operations per second; in particular for \<open>count = 100\<close> and
  \<open>total = 1000000000\<close> it returns exactly 100. The function computes in \<^verbatim>\<open>float\<close>: its
  result is a finite binary32 number within a relative error of \<open>2 powi -21\<close> of the real
  number \<open>count / total * 10^9\<close> (five roundings of the quotient and its products, two of the
  converted operands), and in the particular case it is the number 100 itself.
\<close>

theorem ops_per_sec_is_count_per_total:
  "(total st \<noteq> 0 \<longrightarrow>
      (\<exists>r. bench_stats_ops_per_sec st = Fin r
         \<and> \<bar>r - real (unat (count st)) / real (unat (total st)) * 1000000000\<bar>
             \<le> 2 powi (- 21) * (real (unat (count st)) / real (unat (total st)) * 1000000000)))
   \<and> bench_stats_ops_per_sec \<lparr>count = 100, total = 1000000000, mean = m, d_squared = d\<rparr>
       = Fin 100"
proof -
  have "bench_stats_ops_per_sec \<lparr>count = 100, total = 1000000000, mean = m, d_squared = d\<rparr>
          = Fin 100"
    by (simp add: bench_stats_ops_per_sec_def fp_eval)
  then show ?thesis using ops_per_sec_rel_err [of st] by blast
qed

theorem ops_per_sec_is_count_per_total_witness:
  "total \<lparr>count = 1, total = 3, mean = Fin 0, d_squared = Fin 0\<rparr> \<noteq> 0
   \<and> (\<exists>r. bench_stats_ops_per_sec \<lparr>count = 1, total = 3, mean = Fin 0, d_squared = Fin 0\<rparr> = Fin r
         \<and> \<bar>r - 1 / 3 * 1000000000\<bar> \<le> 2 powi (- 21) * (1 / 3 * 1000000000))"
  using ops_per_sec_is_count_per_total
          [of "\<lparr>count = 1, total = 3, mean = Fin 0, d_squared = Fin 0\<rparr>"]
  by simp

section \<open>C5: the summary line\<close>

text \<open>
  Claim C5. For every completed measurement the summary line has the form
  \<^verbatim>\<open><name> - <throughput><unit> i/s (+-<p>%) (<mean><unit>/i)\<close>, where \<open>p\<close> is the standard
  deviation as a percentage of the mean duration. The line has that form (lemma
  \<open>bench_measure_result\<close>), but the number printed before the percent sign is
  \<^verbatim>\<open>bench_stats_stddev\<close> itself, in nanoseconds. A measurement of two calls of 499999744 ns
  and 500000256 ns has mean 500000000 ns and standard deviation 256 ns; the line shows
  \<open>256.00\<close> before the percent sign, where the deviation relative to the mean, in percent,
  would print as \<open>0.00\<close>.
\<close>

theorem summary_prints_absolute_stddev:
  "bench_measure \<lparr>name = Some ''bench'', out = 1, indent = 0, data = 0, target_time = SECONDS,
                  measurements = \<lparr>capacity = 16, entries = Some []\<rparr>\<rparr> ''fib''
     \<lparr>files = (\<lambda>_. [])(1 := ''benc.h v1.0.0\<newline># bench\<newline>''),
      clock = [0, 0, 499999744, 499999744, 1000000000], allocs = []\<rparr>
   = Inr (0,
          \<lparr>name = Some ''bench'', out = 1, indent = 0, data = 0, target_time = SECONDS,
           measurements = \<lparr>capacity = 16, entries = Some [\<lparr>mname = Some ''fib'',
             stats = \<lparr>count = 2, total = 1000000000, mean = Fin 500000000,
                      d_squared = Fin 131072\<rparr>\<rparr>]\<rparr>\<rparr>,
          \<lparr>files = (\<lambda>_. [])(1 := ''benc.h v1.0.0\<newline># bench\<newline>''
                     @ ''fib - 2.00 i/s ('' @ [CHR 0xC2, CHR 0xB1] @ ''256.00%) (500.00ms/i)\<newline>''),
           clock = [], allocs = []\<rparr>)
   \<and> bench_stats_stddev \<lparr>count = 2, total = 1000000000, mean = Fin 500000000,
                          d_squared = Fin 131072\<rparr> = Fin 256
   \<and> fmt_2f (f32_mul (f32_div (bench_stats_stddev \<lparr>count = 2, total = 1000000000,
                                   mean = Fin 500000000, d_squared = Fin 131072\<rparr>)
                                (Fin 500000000)) (f32_of_int 100)) = ''0.00''"
proof -
  have "fmt_2f (f32_mul (f32_div (Fin 256) (Fin 500000000)) (f32_of_int 100)) = ''0.00''"
    by (simp add: fp_eval fmt_2f.simps Let_def dec_digits.simps)
  then show ?thesis by (simp only: measure_fib two_samples_stddev simp_thms)
qed

section \<open>C6: allocation failures in the runner\<close>

text \<open>
  Claim C6. If, during \<^verbatim>\<open>bench_measure\<close>, the allocation of the new measurement or the
  growth of the suite's measurement list fails, the run for that measurement aborts and
  the failure is surfaced to the caller; the sampling loop is never entered with the
  measurement dropped from the bookkeeping. The code does not check either result. On a
  suite whose 16 slots are taken, with the \<^verbatim>\<open>realloc\<close> of the growth failing (the third
  allocation of the call), \<^verbatim>\<open>bench_measure\<close> runs the loop, prints the summary, returns 0
  and leaves the list as it was, without the new measurement. With the \<^verbatim>\<open>malloc\<close> of the
  measurement failing, \<^verbatim>\<open>bench_measurement_init\<close> writes through the null pointer.
\<close>

theorem measure_ignores_failed_growth:
  "bench_measure \<lparr>name = Some ''bench'', out = 1, indent = 0, data = 0, target_time = SECONDS,
                  measurements = \<lparr>capacity = 16, entries = Some (replicate 16 m0)\<rparr>\<rparr> ''fib''
     \<lparr>files = (\<lambda>_. []), clock = [0, 0, 499999744, 499999744, 1000000000],
      allocs = [True, True, False]\<rparr>
   = Inr (0,
          \<lparr>name = Some ''bench'', out = 1, indent = 0, data = 0, target_time = SECONDS,
           measurements = \<lparr>capacity = 16, entries = Some (replicate 16 m0)\<rparr>\<rparr>,
          \<lparr>files = (\<lambda>_. [])(1 :=
                     ''fib - 2.00 i/s ('' @ [CHR 0xC2, CHR 0xB1] @ ''256.00%) (500.00ms/i)\<newline>''),
           clock = [], allocs = []\<rparr>)
   \<and> bench_measure \<lparr>name = Some ''bench'', out = 1, indent = 0, data = 0, target_time = SECONDS,
                  measurements = \<lparr>capacity = 16, entries = Some []\<rparr>\<rparr> ''fib''
     \<lparr>files = (\<lambda>_. []), clock = [0, 0, 499999744, 499999744, 1000000000],
      allocs = [False]\<rparr>
   = Inl NullDeref"
proof -
  have 1: "bench_measure \<lparr>name = Some ''bench'', out = 1, indent = 0, data = 0, target_time = SECONDS,
                  measurements = \<lparr>capacity = 16, entries = Some (replicate 16 m0)\<rparr>\<rparr> ''fib''
     \<lparr>files = (\<lambda>_. []), clock = [0, 0, 499999744, 499999744, 1000000000],
      allocs = [True, True, False]\<rparr>
   = Inr (0,
          \<lparr>name = Some ''bench'', out = 1, indent = 0, data = 0, target_time = SECONDS,
           measurements = \<lparr>capacity = 16, entries = Some (replicate 16 m0)\<rparr>\<rparr>,
          \<lparr>files = (\<lambda>_. [])(1 :=
                     ''fib - 2.00 i/s ('' @ [CHR 0xC2, CHR 0xB1] @ ''256.00%) (500.00ms/i)\<newline>''),
           clock = [], allocs = []\<rparr>)"
    by (simp add: bench_measure_def alloc_def bench_array_push_def bench_array_resize_def
        size_n_def bench_print_indent_def bench_now_def Let_def two_samples_loop
        bench_stats_print_text two_samples_ops two_samples_stddev fmt_2 fmt_256 fmt_500ms
        fprintf_def)
  have 2: "bench_measure \<lparr>name = Some ''bench'', out = 1, indent = 0, data = 0, target_time = SECONDS,
                  measurements = \<lparr>capacity = 16, entries = Some []\<rparr>\<rparr> ''fib''
     \<lparr>files = (\<lambda>_. []), clock = [0, 0, 499999744, 499999744, 1000000000],
      allocs = [False]\<rparr>
   = Inl NullDeref"
    by (simp add: bench_measure_def alloc_def bench_print_indent_def fprintf_def Let_def)
  from 1 2 show ?thesis by (rule conjI)
qed

section \<open>C8: nested groups\<close>

text \<open>
  Claim C8. \<^verbatim>\<open>bench_group\<close> creates a child suite with the parent's output sink, an indent
  of the parent's indent + 2 and a target time of 1 second; the child prints the version
  banner only when its indent is 0 (so a nested child never reprints it) and prints its own
  \<^verbatim>\<open># <name>\<close> header at its indentation; the child's comparison report is produced by
  \<^verbatim>\<open>bench_compare\<close> before \<^verbatim>\<open>bench_group\<close> returns. The indent is an \<^verbatim>\<open>int\<close> that
  \<^verbatim>\<open>bench_create\<close> takes from its caller, and the child's indent is 0 when the parent's is
  \<open>-2\<close>; so the banner is left out for every parent whose indent is not \<open>-2\<close>, among them
  all those with an indent of 0 or more. When the three allocations of \<^verbatim>\<open>bench_create\<close>
  succeed and the indent does not overflow, the group function receives exactly that
  child, after the header has been written, and \<^verbatim>\<open>bench_group\<close> returns what
  \<^verbatim>\<open>bench_compare\<close> returns on the suite and the world that the group function left: when
  that suite holds two or more named measurements the ranking report has been appended to
  the sink, at the child's indentation, and with fewer than two nothing has.
\<close>

theorem group_runs_child_suite:
  assumes "indent b + 2 \<le> INT_MAX" and "allocs_succeed 3 w"
  shows "bench_group qsort b nm fn ptr w =
           (case fn \<lparr>name = Some nm, out = out b, indent = indent b + 2, data = ptr,
                      target_time = 1000000000,
                      measurements = \<lparr>capacity = 16, entries = Some []\<rparr>\<rparr>
                    ((fprintf (out b) (suite_header (indent b + 2) nm) w)
                       \<lparr>allocs := drop 3 (allocs w)\<rparr>) of
              Inl e \<Rightarrow> Inl e
            | Inr (b2, w2) \<Rightarrow> bench_compare qsort b2 w2)
       \<and> (indent b \<noteq> - 2 \<longrightarrow>
            suite_header (indent b + 2) nm
              = replicate (nat (indent b + 2)) CHR '' '' @ ''# '' @ nm @ ''\<newline>'')
       \<and> (indent b = - 2 \<longrightarrow>
            suite_header (indent b + 2) nm = ''benc.h v1.0.0\<newline>'' @ ''# '' @ nm @ ''\<newline>'')
       \<and> (fn \<lparr>name = Some nm, out = out b, indent = indent b + 2, data = ptr,
                target_time = 1000000000,
                measurements = \<lparr>capacity = 16, entries = Some []\<rparr>\<rparr>
              ((fprintf (out b) (suite_header (indent b + 2) nm) w)
                 \<lparr>allocs := drop 3 (allocs w)\<rparr>) = Inr (b2, w2) \<longrightarrow>
            (entries (measurements b2) = Some xs \<and> 2 \<le> length xs
               \<and> (\<forall>m\<in>set xs. mname m \<noteq> None)
               \<and> qsort_sorts qsort bench_compare_measurement xs \<longrightarrow>
             bench_group qsort b nm fn ptr w
               = Inr (fprintf (out b2)
                        (replicate (nat (indent b2)) CHR '' '' @ ''Comparing...\<newline>''
                         @ compare_report (replicate (nat (indent b2)) CHR '' '')
                             (qsort bench_compare_measurement xs))
                        w2))
            \<and> (size_n (measurements b2) \<le> 1 \<longrightarrow> bench_group qsort b nm fn ptr w = Inr w2))"
proof -
  let ?child = "\<lparr>name = Some nm, out = out b, indent = indent b + 2, data = ptr,
                      target_time = 1000000000,
                      measurements = \<lparr>capacity = 16, entries = Some []\<rparr>\<rparr>"
  let ?w1 = "(fprintf (out b) (suite_header (indent b + 2) nm) w)\<lparr>allocs := drop 3 (allocs w)\<rparr>"
  have g: "bench_group qsort b nm fn ptr w =
           (case fn ?child ?w1 of Inl e \<Rightarrow> Inl e | Inr (b2, w2) \<Rightarrow> bench_compare qsort b2 w2)"
    using assms(1) by (simp add: bench_group_def bench_create_ok [OF assms(2)])
  have h1: "indent b \<noteq> - 2 \<longrightarrow>
            suite_header (indent b + 2) nm
              = replicate (nat (indent b + 2)) CHR '' '' @ ''# '' @ nm @ ''\<newline>''"
    by (simp add: suite_header_def)
  have h2: "indent b = - 2 \<longrightarrow>
            suite_header (indent b + 2) nm = ''benc.h v1.0.0\<newline>'' @ ''# '' @ nm @ ''\<newline>''"
    by (simp add: suite_header_def)
  have r: "fn ?child ?w1 = Inr (b2, w2) \<longrightarrow>
            (entries (measurements b2) = Some xs \<and> 2 \<le> length xs
               \<and> (\<forall>m\<in>set xs. mname m \<noteq> None)
               \<and> qsort_sorts qsort bench_compare_measurement xs \<longrightarrow>
             bench_group qsort b nm fn ptr w
               = Inr (fprintf (out b2)
                        (replicate (nat (indent b2)) CHR '' '' @ ''Comparing...\<newline>''
                         @ compare_report (replicate (nat (indent b2)) CHR '' '')
                             (qsort bench_compare_measurement xs))
                        w2))
            \<and> (size_n (measurements b2) \<le> 1 \<longrightarrow> bench_group qsort b nm fn ptr w = Inr w2)"
  proof (intro impI conjI)
    assume f: "fn ?child ?w1 = Inr (b2, w2)"
    then have e: "bench_group qsort b nm fn ptr w = bench_compare qsort b2 w2"
      unfolding g by simp
    {
      assume a: "entries (measurements b2) = Some xs \<and> 2 \<le> length xs
               \<and> (\<forall>m\<in>set xs. mname m \<noteq> None)
               \<and> qsort_sorts qsort bench_compare_measurement xs"
      then have "bench_compare qsort b2 w2
               = Inr (fprintf (out b2)
                        (replicate (nat (indent b2)) CHR '' '' @ ''Comparing...\<newline>''
                         @ compare_report (replicate (nat (indent b2)) CHR '' '')
                             (qsort bench_compare_measurement xs))
                        w2)"
        by (intro bench_compare_report) simp_all
      with e show "bench_group qsort b nm fn ptr w
               = Inr (fprintf (out b2)
                        (replicate (nat (indent b2)) CHR '' '' @ ''Comparing...\<newline>''
                         @ compare_report (replicate (nat (indent b2)) CHR '' '')
                             (qsort bench_compare_measurement xs))
                        w2)"
        by simp
    }
    {
      assume "size_n (measurements b2) \<le> 1"
      then have "bench_compare qsort b2 w2 = Inr w2" by (rule bench_compare_silent)
      with e show "bench_group qsort b nm fn ptr w = Inr w2" by simp
    }
  qed
  from g h1 h2 r show ?thesis by blast
qed

text \<open>
  A group whose function measures twice, a call that takes half a second and one that
  takes two: the child's header, the two summaries and the ranking report are in the sink
  when \<^verbatim>\<open>bench_group\<close> returns. A group whose function measures nothing leaves the
  header alone, and the header of a child of a suite with indent \<open>-2\<close> begins with the
  banner.
\<close>

theorem group_runs_child_suite_witness:
  "indent \<lparr>name = Some ''bench'', out = 1, indent = 0, data = 0, target_time = SECONDS,
            measurements = \<lparr>capacity = 16, entries = Some []\<rparr>\<rparr> + 2 \<le> INT_MAX
   \<and> allocs_succeed 3 \<lparr>files = (\<lambda>_. [])(1 := ''benc.h v1.0.0\<newline># bench\<newline>''),
         clock = [0, 0, 499999744, 499999744, 1000000000, 0, 0, 2000000000], allocs = []\<rparr>
   \<and> indent \<lparr>name = Some ''bench'', out = 1, indent = 0, data = 0, target_time = SECONDS,
            measurements = \<lparr>capacity = 16, entries = Some []\<rparr>\<rparr> \<noteq> - 2
   \<and> bench_group isort_by
         \<lparr>name = Some ''bench'', out = 1, indent = 0, data = 0, target_time = SECONDS,
          measurements = \<lparr>capacity = 16, entries = Some []\<rparr>\<rparr>
         ''publish''
         (\<lambda>b2 w2. case bench_measure b2 ''fast'' w2 of
                     Inl e \<Rightarrow> Inl e
                   | Inr (r, b3, w3) \<Rightarrow>
                       (case bench_measure b3 ''slow'' w3 of
                          Inl e \<Rightarrow> Inl e
                        | Inr (r', b4, w4) \<Rightarrow> Inr (b4, w4)))
         0
         \<lparr>files = (\<lambda>_. [])(1 := ''benc.h v1.0.0\<newline># bench\<newline>''),
          clock = [0, 0, 499999744, 499999744, 1000000000, 0, 0, 2000000000], allocs = []\<rparr>
       = Inr \<lparr>files = (\<lambda>_. [])(1 := ''benc.h v1.0.0\<newline># bench\<newline>  # publish\<newline>''
                  @ ''  fast - 2.00 i/s ('' @ [CHR 0xC2, CHR 0xB1] @ ''256.00%) (500.00ms/i)\<newline>''
                  @ ''  slow - 0.50 i/s ('' @ [CHR 0xC2, CHR 0xB1] @ ''0.00%) (2.00s/i)\<newline>''
                  @ ''  Comparing...\<newline>    - fast (fastest)\<newline>    - slow (300.00% slower)\<newline>''),
              clock = [], allocs = []\<rparr>
   \<and> size_n (measurements \<lparr>name = Some ''empty'', out = 1, indent = 2, data = 0,
                target_time = 1000000000,
                measurements = \<lparr>capacity = 16, entries = Some []\<rparr>\<rparr>) \<le> 1
   \<and> bench_group isort_by
         \<lparr>name = Some ''bench'', out = 1, indent = 0, data = 0, target_time = SECONDS,
          measurements = \<lparr>capacity = 16, entries = Some []\<rparr>\<rparr>
         ''empty'' (\<lambda>b2 w2. Inr (b2, w2)) 0
         \<lparr>files = (\<lambda>_. [])(1 := ''benc.h v1.0.0\<newline># bench\<newline>''),
          clock = [0, 0, 499999744, 499999744, 1000000000, 0, 0, 2000000000], allocs = []\<rparr>
       = Inr \<lparr>files = (\<lambda>_. [])(1 := ''benc.h v1.0.0\<newline># bench\<newline>  # empty\<newline>''),
              clock = [0, 0, 499999744, 499999744, 1000000000, 0, 0, 2000000000],
              allocs = []\<rparr>
   \<and> indent \<lparr>name = Some ''bench'', out = 1, indent = - 2, data = 0, target_time = SECONDS,
            measurements = \<lparr>capacity = 16, entries = Some []\<rparr>\<rparr> + 2 \<le> INT_MAX
   \<and> indent \<lparr>name = Some ''bench'', out = 1, indent = - 2, data = 0, target_time = SECONDS,
            measurements = \<lparr>capacity = 16, entries = Some []\<rparr>\<rparr> = - 2
   \<and> suite_header
         (indent \<lparr>name = Some ''bench'', out = 1, indent = - 2, data = 0, target_time = SECONDS,
                   measurements = \<lparr>capacity = 16, entries = Some []\<rparr>\<rparr> + 2) ''first''
       = ''benc.h v1.0.0\<newline># first\<newline>''"
proof -
  let ?F = "\<lparr>mname = Some ''fast'', stats = \<lparr>count = 2, total = 1000000000, mean = Fin 500000000, d_squared = Fin 131072\<rparr>\<rparr>"
  let ?S = "\<lparr>mname = Some ''slow'', stats = \<lparr>count = 1, total = 2000000000, mean = Fin 2000000000, d_squared = Fin 0\<rparr>\<rparr>"
  let ?b = "\<lparr>name = Some ''bench'', out = 1, indent = 0, data = 0, target_time = SECONDS,
            measurements = \<lparr>capacity = 16, entries = Some ([] :: bench_measurement_t list)\<rparr>\<rparr>"
  let ?w = "\<lparr>files = (\<lambda>_. [])(1 := ''benc.h v1.0.0\<newline># bench\<newline>''),
             clock = [0, 0, 499999744, 499999744, 1000000000, 0, 0, 2000000000 :: 64 word],
             allocs = []\<rparr>"
  let ?fn = "\<lambda>b2 w2. case bench_measure b2 ''fast'' w2 of
                     Inl e \<Rightarrow> Inl e
                   | Inr (r, b3, w3) \<Rightarrow>
                       (case bench_measure b3 ''slow'' w3 of
                          Inl e \<Rightarrow> Inl e
                        | Inr (r', b4, w4) \<Rightarrow> Inr (b4, w4))"
  let ?b4 = "\<lparr>name = Some ''publish'', out = 1, indent = 2, data = 0, target_time = 1000000000,
              measurements = \<lparr>capacity = 16, entries = Some [?F, ?S]\<rparr>\<rparr>"
  let ?w1 = "\<lparr>files = (\<lambda>_. [])(1 := ''benc.h v1.0.0\<newline># bench\<newline>  # publish\<newline>''),
              clock = [0, 0, 499999744, 499999744, 1000000000, 0, 0, 2000000000 :: 64 word],
              allocs = []\<rparr>"
  let ?w4 = "\<lparr>files = (\<lambda>_. [])(1 := ''benc.h v1.0.0\<newline># bench\<newline>  # publish\<newline>''
                  @ ''  fast - 2.00 i/s ('' @ [CHR 0xC2, CHR 0xB1] @ ''256.00%) (500.00ms/i)\<newline>''
                  @ ''  slow - 0.50 i/s ('' @ [CHR 0xC2, CHR 0xB1] @ ''0.00%) (2.00s/i)\<newline>''),
              clock = [] :: 64 word list, allocs = []\<rparr>"
  have h1: "indent ?b + 2 \<le> INT_MAX" by (simp add: INT_MAX_def)
  have h2: "allocs_succeed 3 ?w" by (simp add: allocs_succeed_def)
  have hd: "indent ?b \<noteq> - 2" by simp
  note t = group_runs_child_suite [OF h1 h2, of isort_by "''publish''" ?fn 0 ?b4 ?w4 "[?F, ?S]"]
  from t hd have hdr: "suite_header (indent ?b + 2) ''publish''
              = replicate (nat (indent ?b + 2)) CHR '' '' @ ''# '' @ ''publish'' @ ''\<newline>''"
    by blast
  have w1: "(fprintf (out ?b) (suite_header (indent ?b + 2) ''publish'') ?w)
                 \<lparr>allocs := drop 3 (allocs ?w)\<rparr> = ?w1"
    unfolding hdr by (simp add: fprintf_def numeral_2_eq_2)
  have ch: "\<lparr>name = Some ''publish'', out = out ?b, indent = indent ?b + 2, data = 0,
                target_time = 1000000000,
                measurements = \<lparr>capacity = 16, entries = Some ([] :: bench_measurement_t list)\<rparr>\<rparr>
            = \<lparr>name = Some ''publish'', out = 1, indent = 2, data = 0,
                target_time = 1000000000,
                measurements = \<lparr>capacity = 16, entries = Some []\<rparr>\<rparr>"
    by simp
  have f: "?fn \<lparr>name = Some ''publish'', out = out ?b, indent = indent ?b + 2, data = 0,
                target_time = 1000000000,
                measurements = \<lparr>capacity = 16, entries = Some []\<rparr>\<rparr>
              ((fprintf (out ?b) (suite_header (indent ?b + 2) ''publish'') ?w)
                 \<lparr>allocs := drop 3 (allocs ?w)\<rparr>)
             = Inr (?b4, ?w4)"
    unfolding w1 ch by (simp only: measure_fast measure_slow sum.case prod.case)
  have a: "entries (measurements ?b4) = Some [?F, ?S] \<and> 2 \<le> length [?F, ?S]
           \<and> (\<forall>m\<in>set [?F, ?S]. mname m \<noteq> None)
           \<and> qsort_sorts isort_by bench_compare_measurement [?F, ?S]"
    using sorts_fast_slow by simp
  from t f a have "bench_group isort_by ?b ''publish'' ?fn 0 ?w
               = Inr (fprintf (out ?b4)
                        (replicate (nat (indent ?b4)) CHR '' '' @ ''Comparing...\<newline>''
                         @ compare_report (replicate (nat (indent ?b4)) CHR '' '')
                             (isort_by bench_compare_measurement [?F, ?S]))
                        ?w4)"
    by blast
  then have "bench_group isort_by ?b ''publish'' ?fn 0 ?w
       = Inr \<lparr>files = (\<lambda>_. [])(1 := ''benc.h v1.0.0\<newline># bench\<newline>  # publish\<newline>''
                  @ ''  fast - 2.00 i/s ('' @ [CHR 0xC2, CHR 0xB1] @ ''256.00%) (500.00ms/i)\<newline>''
                  @ ''  slow - 0.50 i/s ('' @ [CHR 0xC2, CHR 0xB1] @ ''0.00%) (2.00s/i)\<newline>''
                  @ ''  Comparing...\<newline>    - fast (fastest)\<newline>    - slow (300.00% slower)\<newline>''),
              clock = [], allocs = []\<rparr>"
    by (simp add: sort_fast_slow compare_report_def name_text_def slower_slow
          fmt_300 fprintf_def numeral_2_eq_2)
  note first = this
  let ?e = "\<lparr>name = Some ''empty'', out = 1, indent = 2, data = 0, target_time = 1000000000,
             measurements = \<lparr>capacity = 16, entries = Some ([] :: bench_measurement_t list)\<rparr>\<rparr>"
  let ?we = "\<lparr>files = (\<lambda>_. [])(1 := ''benc.h v1.0.0\<newline># bench\<newline>  # empty\<newline>''),
              clock = [0, 0, 499999744, 499999744, 1000000000, 0, 0, 2000000000 :: 64 word],
              allocs = []\<rparr>"
  note t2 = group_runs_child_suite [OF h1 h2, of isort_by "''empty''" "\<lambda>b2 w2. Inr (b2, w2)" 0
      ?e ?we "[]"]
  from t2 hd have hdr2: "suite_header (indent ?b + 2) ''empty''
              = replicate (nat (indent ?b + 2)) CHR '' '' @ ''# '' @ ''empty'' @ ''\<newline>''"
    by blast
  have f2: "(\<lambda>b2 w2. Inr (b2, w2) :: fault + bench_t \<times> world)
              \<lparr>name = Some ''empty'', out = out ?b, indent = indent ?b + 2, data = 0,
                target_time = 1000000000,
                measurements = \<lparr>capacity = 16, entries = Some []\<rparr>\<rparr>
              ((fprintf (out ?b) (suite_header (indent ?b + 2) ''empty'') ?w)
                 \<lparr>allocs := drop 3 (allocs ?w)\<rparr>)
             = Inr (?e, ?we)"
    unfolding hdr2 by (simp add: fprintf_def numeral_2_eq_2)
  have sz: "size_n (measurements ?e) \<le> 1" by (simp add: size_n_def)
  from t2 f2 sz have second: "bench_group isort_by ?b ''empty'' (\<lambda>b2 w2. Inr (b2, w2)) 0 ?w
      = Inr ?we"
    by blast
  let ?bm = "\<lparr>name = Some ''bench'', out = 1, indent = - 2, data = 0, target_time = SECONDS,
            measurements = \<lparr>capacity = 16, entries = Some ([] :: bench_measurement_t list)\<rparr>\<rparr>"
  have h3: "indent ?bm + 2 \<le> INT_MAX" by (simp add: INT_MAX_def)
  have hm: "indent ?bm = - 2" by simp
  note t3 = group_runs_child_suite [OF h3 h2, of isort_by "''first''" "\<lambda>b2 w2. Inr (b2, w2)" 0
      ?e ?we "[]"]
  from t3 hm have "suite_header (indent ?bm + 2) ''first''
      = ''benc.h v1.0.0\<newline>'' @ ''# '' @ ''first'' @ ''\<newline>''"
    by blast
  then have third: "suite_header (indent ?bm + 2) ''first'' = ''benc.h v1.0.0\<newline># first\<newline>''"
    by simp
  from h1 h2 hd first sz second h3 hm third show ?thesis by blast
qed

text \<open>
  A suite created with an indent of \<open>-2\<close> prints no banner, and each of its groups is a
  nested child with indent 0 that prints one: two groups in a row print the banner twice.
\<close>

theorem nested_child_banner_counterexample:
  "bench_create ''bench'' 1 (- 2) 0 \<lparr>files = (\<lambda>_. []), clock = [], allocs = []\<rparr>
     = Inr (Some \<lparr>name = Some ''bench'', out = 1, indent = - 2, data = 0, target_time = SECONDS,
                   measurements = \<lparr>capacity = 16, entries = Some []\<rparr>\<rparr>,
            \<lparr>files = (\<lambda>_. [])(1 := ''# bench\<newline>''), clock = [], allocs = []\<rparr>)
   \<and> bench_group isort_by
         \<lparr>name = Some ''bench'', out = 1, indent = - 2, data = 0, target_time = SECONDS,
          measurements = \<lparr>capacity = 16, entries = Some []\<rparr>\<rparr>
         ''first'' (\<lambda>b2 w2. Inr (b2, w2)) 0
         \<lparr>files = (\<lambda>_. [])(1 := ''# bench\<newline>''), clock = [], allocs = []\<rparr>
       = Inr \<lparr>files = (\<lambda>_. [])(1 := ''# bench\<newline>benc.h v1.0.0\<newline># first\<newline>''),
              clock = [], allocs = []\<rparr>
   \<and> bench_group isort_by
         \<lparr>name = Some ''bench'', out = 1, indent = - 2, data = 0, target_time = SECONDS,
          measurements = \<lparr>capacity = 16, entries = Some []\<rparr>\<rparr>
         ''second'' (\<lambda>b2 w2. Inr (b2, w2)) 0
         \<lparr>files = (\<lambda>_. [])(1 := ''# bench\<newline>benc.h v1.0.0\<newline># first\<newline>''),
          clock = [], allocs = []\<rparr>
       = Inr \<lparr>files = (\<lambda>_. [])(1 := ''# bench\<newline>benc.h v1.0.0\<newline># first\<newline>benc.h v1.0.0\<newline># second\<newline>''),
              clock = [], allocs = []\<rparr>"
  by (simp add: bench_group_def bench_create_def alloc_def bench_array_init_def
        bench_array_resize_def size_n_def bench_print_indent_def fprintf_def Let_def
        bench_compare_def INT_MAX_def)

section \<open>C3: the comparison report\<close>

text \<open>
  Claim C3. \<^verbatim>\<open>bench_compare\<close> emits a ranking report if and only if the suite holds two or
  more measurements; when emitted, the measurements are ordered by descending operations
  per second, the first entry is marked fastest, and every later entry is annotated with
  (its mean duration / fastest mean duration) * 100 - 100 percent slower; measurements A
  (1000 per second), B (2000 per second) and C (500 per second) are reported in the order
  B, A, C. The sorting is done by \<^verbatim>\<open>qsort\<close> of the C library, which is taken to keep its
  contract \<open>qsort_sorts\<close>; the names are those that \<^verbatim>\<open>strdup\<close> returned, taken to be
  non-null. The report is then the text \<open>compare_report\<close> over the sorted entries, in which
  no entry has fewer operations per second than a later one.
\<close>

theorem compare_ranks_by_throughput:
  "(size_n (measurements b) \<le> 1 \<longrightarrow> bench_compare qsort b w = Inr w)
   \<and> (entries (measurements b) = Some xs \<and> 2 \<le> length xs
        \<and> (\<forall>m\<in>set xs. mname m \<noteq> None)
        \<and> qsort_sorts qsort bench_compare_measurement xs \<longrightarrow>
      bench_compare qsort b w
        = Inr (fprintf (out b)
                 (replicate (nat (indent b)) CHR '' '' @ ''Comparing...\<newline>''
                  @ compare_report (replicate (nat (indent b)) CHR '' '')
                      (qsort bench_compare_measurement xs))
                 w)
      \<and> sorted_wrt (\<lambda>a c. \<not> f32_lt (bench_stats_ops_per_sec (stats a))
                                   (bench_stats_ops_per_sec (stats c)))
           (qsort bench_compare_measurement xs)
      \<and> (\<forall>x. count_list (qsort bench_compare_measurement xs) x = count_list xs x))"
proof (intro conjI impI)
  assume "size_n (measurements b) \<le> 1"
  then show "bench_compare qsort b w = Inr w" by (simp add: bench_compare_def)
next
  assume a: "entries (measurements b) = Some xs \<and> 2 \<le> length xs
        \<and> (\<forall>m\<in>set xs. mname m \<noteq> None)
        \<and> qsort_sorts qsort bench_compare_measurement xs"
  let ?ys = "qsort bench_compare_measurement xs"
  from a have perm: "\<forall>x. count_list ?ys x = count_list xs x"
    and srt: "sorted_wrt (\<lambda>a c. bench_compare_measurement a c \<le> 0) ?ys"
    by (simp_all add: qsort_sorts_def)
  from perm have "set ?ys = set xs" by (rule count_list_set)
  with a have names: "\<forall>m\<in>set ?ys. mname m \<noteq> None" by simp
  from a have sz: "1 < size_n (measurements b)" by (simp add: size_n_def)
  show "bench_compare qsort b w
        = Inr (fprintf (out b)
                 (replicate (nat (indent b)) CHR '' '' @ ''Comparing...\<newline>''
                  @ compare_report (replicate (nat (indent b)) CHR '' '') ?ys)
                 w)"
    using a sz
    by (simp add: bench_compare_def compare_loop_report [OF names] bench_print_indent_def
          fprintf_fprintf)
  show "sorted_wrt (\<lambda>a c. \<not> f32_lt (bench_stats_ops_per_sec (stats a))
                                   (bench_stats_ops_per_sec (stats c))) ?ys"
    using srt by (simp add: compare_le_iff)
  show "\<forall>x. count_list ?ys x = count_list xs x" by (rule perm)
qed

theorem compare_ranks_by_throughput_witness:
  "bench_compare isort_by
     \<lparr>name = Some ''bench'', out = 1, indent = 0, data = 0, target_time = SECONDS,
      measurements = \<lparr>capacity = 16, entries = Some
       [\<lparr>mname = Some ''A'', stats = \<lparr>count = 1000, total = 1000000000, mean = Fin 1000000, d_squared = Fin 0\<rparr>\<rparr>,
        \<lparr>mname = Some ''B'', stats = \<lparr>count = 2000, total = 1000000000, mean = Fin 500000, d_squared = Fin 0\<rparr>\<rparr>,
        \<lparr>mname = Some ''C'', stats = \<lparr>count = 500, total = 1000000000, mean = Fin 2000000, d_squared = Fin 0\<rparr>\<rparr>]\<rparr>\<rparr>
     \<lparr>files = (\<lambda>_. []), clock = [], allocs = []\<rparr>
   = Inr \<lparr>files = (\<lambda>_. [])(1 := ''Comparing...\<newline>  - B (fastest)\<newline>  - A (100.00% slower)\<newline>  - C (300.00% slower)\<newline>''),
          clock = [], allocs = []\<rparr>
   \<and> bench_compare isort_by
     \<lparr>name = Some ''bench'', out = 1, indent = 0, data = 0, target_time = SECONDS,
      measurements = \<lparr>capacity = 16, entries = Some
       [\<lparr>mname = Some ''A'', stats = \<lparr>count = 1000, total = 1000000000, mean = Fin 1000000, d_squared = Fin 0\<rparr>\<rparr>]\<rparr>\<rparr>
     \<lparr>files = (\<lambda>_. []), clock = [], allocs = []\<rparr>
   = Inr \<lparr>files = (\<lambda>_. []), clock = [], allocs = []\<rparr>"
proof -
  let ?A = "\<lparr>mname = Some ''A'', stats = \<lparr>count = 1000, total = 1000000000, mean = Fin 1000000, d_squared = Fin 0\<rparr>\<rparr>"
  let ?B = "\<lparr>mname = Some ''B'', stats = \<lparr>count = 2000, total = 1000000000, mean = Fin 500000, d_squared = Fin 0\<rparr>\<rparr>"
  let ?C = "\<lparr>mname = Some ''C'', stats = \<lparr>count = 500, total = 1000000000, mean = Fin 2000000, d_squared = Fin 0\<rparr>\<rparr>"
  let ?b = "\<lparr>name = Some ''bench'', out = 1, indent = 0, data = 0, target_time = SECONDS,
      measurements = \<lparr>capacity = 16, entries = Some [?A, ?B, ?C]\<rparr>\<rparr>"
  let ?b1 = "\<lparr>name = Some ''bench'', out = 1, indent = 0, data = 0, target_time = SECONDS,
      measurements = \<lparr>capacity = 16, entries = Some [?A]\<rparr>\<rparr>"
  let ?w = "\<lparr>files = (\<lambda>_. []), clock = [], allocs = []\<rparr>"
  have h: "entries (measurements ?b) = Some [?A, ?B, ?C] \<and> 2 \<le> length [?A, ?B, ?C]
        \<and> (\<forall>m\<in>set [?A, ?B, ?C]. mname m \<noteq> None)
        \<and> qsort_sorts isort_by bench_compare_measurement [?A, ?B, ?C]"
    using sorts_ABC by simp
  note t = compare_ranks_by_throughput [of ?b isort_by ?w "[?A, ?B, ?C]"]
  from t h have "bench_compare isort_by ?b ?w
        = Inr (fprintf (out ?b)
                 (replicate (nat (indent ?b)) CHR '' '' @ ''Comparing...\<newline>''
                  @ compare_report (replicate (nat (indent ?b)) CHR '' '')
                      (isort_by bench_compare_measurement [?A, ?B, ?C]))
                 ?w)"
    by blast
  then have 1: "bench_compare isort_by ?b ?w
     = Inr \<lparr>files = (\<lambda>_. [])(1 := ''Comparing...\<newline>  - B (fastest)\<newline>  - A (100.00% slower)\<newline>  - C (300.00% slower)\<newline>''),
          clock = [], allocs = []\<rparr>"
    by (simp add: sort_ABC compare_report_def name_text_def slower_A slower_C
          fmt_100 fmt_300 fprintf_def)
  have "size_n (measurements ?b1) \<le> 1" by (simp add: size_n_def)
  with compare_ranks_by_throughput [of ?b1 isort_by ?w "[?A]"]
  have 2: "bench_compare isort_by ?b1 ?w = Inr ?w" by blast
  from 1 2 show ?thesis by (rule conjI)
qed

section \<open>C1: mean and variance of the pushed durations\<close>




end
